theory Spec2Isabelle
  imports Complex_Main "HOL-Library.Char_ord"
begin

section \<open>Dates and period alignment (\<^verbatim>\<open>match_date_to_period\<close>)\<close>

text \<open>
  A naive UTC \<^verbatim>\<open>datetime\<close>. The calendar date is kept as its proleptic Gregorian
  ordinal (what \<^verbatim>\<open>date.toordinal()\<close> returns), since the code never reads year, month
  or day on their own: \<^verbatim>\<open>replace\<close> only overwrites the time-of-day fields and
  \<^verbatim>\<open>pd.DateOffset\<close> shifts by whole days or whole hours.
\<close>

record datetime =
  ordinal :: int
  hour :: int
  minute :: int
  second :: int
  microsecond :: int

definition valid_datetime :: "datetime \<Rightarrow> bool" where
  "valid_datetime t \<longleftrightarrow>
     0 \<le> hour t \<and> hour t < 24 \<and> 0 \<le> minute t \<and> minute t < 60 \<and>
     0 \<le> second t \<and> second t < 60 \<and> 0 \<le> microsecond t \<and> microsecond t < 1000000"

text \<open>The position of a datetime on the time line, in microseconds.\<close>

definition micros :: "datetime \<Rightarrow> int" where
  "micros t =
     (((ordinal t * 24 + hour t) * 60 + minute t) * 60 + second t) * 1000000 + microsecond t"

definition hour_us :: int where
  "hour_us = 3600000000"

definition day_us :: int where
  "day_us = 86400000000"

text \<open>
  \<^verbatim>\<open>pd.DateOffset(days=k)\<close> and \<^verbatim>\<open>pd.DateOffset(hours=k)\<close>, and their addition to
  a datetime: whole days move the date, whole hours move the hour and carry into the date.
\<close>

datatype date_offset = DateOffset_days int | DateOffset_hours int

fun plus_offset :: "datetime \<Rightarrow> date_offset \<Rightarrow> datetime" where
  "plus_offset t (DateOffset_days k) = t\<lparr>ordinal := ordinal t + k\<rparr>"
| "plus_offset t (DateOffset_hours k) =
     t\<lparr>ordinal := ordinal t + (hour t + k) div 24, hour := (hour t + k) mod 24\<rparr>"

text \<open>
  \<^verbatim>\<open>match_date_to_period(period, offset)\<close>. The reading of the clock
  (\<^verbatim>\<open>datetime.utcnow()\<close>) is the first argument.
\<close>

definition match_date_to_period :: "datetime \<Rightarrow> string \<Rightarrow> int \<Rightarrow> datetime" where
  "match_date_to_period now period offset =
     (if period = ''d1'' then
        plus_offset (now\<lparr>hour := 0, minute := 0, second := 0, microsecond := 0\<rparr>)
          (DateOffset_days (offset + 1))
      else if period = ''h1'' then
        plus_offset (now\<lparr>minute := 0, second := 0, microsecond := 0\<rparr>)
          (DateOffset_hours offset)
      else now)"

section \<open>Requests, errors and the storage\<close>

text \<open>
  The pydantic request models. A Python \<^verbatim>\<open>float\<close> is modelled as a real number (the
  code only compares prices for equality and passes them on; NaN is outside the model).
\<close>

record OHLCData =
  Open :: real
  High :: real
  Low :: real
  Close :: real
  Volume :: int

record PredictionRequest =
  data :: "OHLCData list"
  sentimentScore :: "real option"

text \<open>The exceptions that can travel through \<^verbatim>\<open>predict\<close>.\<close>

datatype exn =
    HTTPException (status_code: nat) (detail: string)
  | FileNotFoundError string
  | IndexError
  | AttributeError
  | OtherException string

text \<open>
  Rows of the tables of currency pairs, periods and prediction models: the code reads
  their \<^verbatim>\<open>id\<close> and \<^verbatim>\<open>name\<close>. Rows of the prediction table: the code reads
  \<^verbatim>\<open>value\<close>, \<^verbatim>\<open>date\<close> and \<^verbatim>\<open>last_live_value\<close>, and passes the three ids.
\<close>

record named_row =
  id' :: nat
  name :: string

record Prediction =
  currency_pair_id :: nat
  period_id :: nat
  model_id :: nat
  pred_value :: real
  last_live_value :: real
  date :: datetime

record database =
  currency_pairs :: "named_row list"
  periods :: "named_row list"
  prediction_models :: "named_row list"
  predictions :: "Prediction list"

definition of_triple :: "nat \<Rightarrow> nat \<Rightarrow> nat \<Rightarrow> Prediction \<Rightarrow> bool" where
  "of_triple c p m r \<longleftrightarrow> currency_pair_id r = c \<and> period_id r = p \<and> model_id r = m"

text \<open>
  Modelled from the spec: \<^verbatim>\<open>service.get_currency_pair\<close>, \<^verbatim>\<open>service.get_period\<close> and
  \<^verbatim>\<open>service.get_prediction_model\<close> (module \<^verbatim>\<open>db.service\<close> is not among the sources);
  the spec's \<^verbatim>\<open>getCurrencyPair(name)\<close>, \<^verbatim>\<open>getPeriod(name)\<close>, \<^verbatim>\<open>getModel(name)\<close>:
  the row of that name, if storage knows one.
\<close>

definition get_currency_pair :: "database \<Rightarrow> string \<Rightarrow> named_row option" where
  "get_currency_pair db n = find (\<lambda>r. name r = n) (currency_pairs db)"

definition get_period :: "database \<Rightarrow> string \<Rightarrow> named_row option" where
  "get_period db n = find (\<lambda>r. name r = n) (periods db)"

definition get_prediction_model :: "database \<Rightarrow> string \<Rightarrow> named_row option" where
  "get_prediction_model db n = find (\<lambda>r. name r = n) (prediction_models db)"

text \<open>
  Modelled from the spec: \<^verbatim>\<open>service.get_n_future_predictions\<close>, the spec's
  \<^verbatim>\<open>getPredictionsInRange(pairId, periodId, modelId, fromTimestamp, count)\<close>: at most
  \<^verbatim>\<open>count\<close> stored predictions of the triple whose timestamp is not before
  \<^verbatim>\<open>fromTimestamp\<close>, the earliest first. Datetimes are compared by their position on the
  time line.
\<close>

definition future_predictions :: "database \<Rightarrow> nat \<Rightarrow> nat \<Rightarrow> nat \<Rightarrow> datetime \<Rightarrow> Prediction list" where
  "future_predictions db c p m d =
     filter (\<lambda>r. of_triple c p m r \<and> micros d \<le> micros (date r)) (predictions db)"

definition get_n_future_predictions ::
  "database \<Rightarrow> nat \<Rightarrow> nat \<Rightarrow> nat \<Rightarrow> datetime \<Rightarrow> nat \<Rightarrow> Prediction list" where
  "get_n_future_predictions db c p m d n =
     take n (sort_key (\<lambda>r. micros (date r)) (future_predictions db c p m d))"

text \<open>
  Modelled from the spec: \<^verbatim>\<open>service.get_prediction_by_date\<close>, the spec's
  \<^verbatim>\<open>getPredictionAt(pairId, periodId, modelId, timestamp)\<close>: the stored prediction at
  that key, if there is one.
\<close>

definition at_key :: "nat \<Rightarrow> nat \<Rightarrow> nat \<Rightarrow> datetime \<Rightarrow> Prediction \<Rightarrow> bool" where
  "at_key c p m d r \<longleftrightarrow> of_triple c p m r \<and> micros (date r) = micros d"

definition get_prediction_by_date ::
  "database \<Rightarrow> nat \<Rightarrow> nat \<Rightarrow> nat \<Rightarrow> datetime \<Rightarrow> Prediction option" where
  "get_prediction_by_date db c p m d = find (at_key c p m d) (predictions db)"

text \<open>
  Modelled from the spec: \<^verbatim>\<open>service.update_prediction\<close> and
  \<^verbatim>\<open>service.create_prediction\<close>, the two halves of the spec's
  \<^verbatim>\<open>upsertPrediction(key, value, anchor)\<close>: the update overwrites value and anchor of
  the prediction stored at the key of the record it is given; the creation adds a
  prediction at a new key.
\<close>

definition update_prediction :: "database \<Rightarrow> Prediction \<Rightarrow> real \<Rightarrow> real \<Rightarrow> database" where
  "update_prediction db existing v anchor =
     db\<lparr>predictions :=
       map (\<lambda>r. if at_key (currency_pair_id existing) (period_id existing)
                     (model_id existing) (date existing) r
                then r\<lparr>pred_value := v, last_live_value := anchor\<rparr> else r)
         (predictions db)\<rparr>"

definition create_prediction ::
  "database \<Rightarrow> nat \<Rightarrow> nat \<Rightarrow> nat \<Rightarrow> real \<Rightarrow> real \<Rightarrow> datetime \<Rightarrow> database" where
  "create_prediction db c p m v anchor d =
     db\<lparr>predictions := predictions db @
       [\<lparr>currency_pair_id = c, period_id = p, model_id = m, pred_value = v,
         last_live_value = anchor, date = d\<rparr>]\<rparr>"

text \<open>
  Modelled from the spec: \<^verbatim>\<open>service.get_all_predictions\<close>: every stored prediction of
  the triple, in stored order.
\<close>

definition get_all_predictions :: "database \<Rightarrow> nat \<Rightarrow> nat \<Rightarrow> nat \<Rightarrow> Prediction list" where
  "get_all_predictions db c p m = filter (of_triple c p m) (predictions db)"

section \<open>The prediction endpoint (\<^verbatim>\<open>predict\<close>)\<close>

text \<open>
  The functions of module \<^verbatim>\<open>prediction\<close> are suppliers outside the sources; they are
  parameters of the model, each returning a value or raising. \<^verbatim>\<open>build_sequences\<close> stands
  for lines 124 to 131 (indicator columns, \<^verbatim>\<open>dropna\<close>, \<^verbatim>\<open>preprocess_data\<close>);
  \<^verbatim>\<open>str\<close> is Python's \<^verbatim>\<open>str(e)\<close>.
\<close>

record ('m, 's, 'q) env =
  load_model_and_scaler :: "string \<Rightarrow> string \<Rightarrow> exn + ('m \<times> 's)"
  build_sequences :: "OHLCData list \<Rightarrow> 's \<Rightarrow> exn + 'q"
  get_multiple_predictions :: "'q \<Rightarrow> 'm \<Rightarrow> 's \<Rightarrow> real option \<Rightarrow> exn + real list"
  str :: "exn \<Rightarrow> string"

text \<open>
  The state a request runs in: the storage, and the log of calls made to the model
  supplier and to the rollout (the model-inference calls).
\<close>

datatype inference_call = Load_model string string | Rollout "real option"

record world =
  store :: database
  calls :: "inference_call list"

record response =
  LSTM_predictions :: "(real \<times> datetime) list"
  LSTM_sentiment_predictions :: "(real \<times> datetime) list"

text \<open>\<^verbatim>\<open>str.upper()\<close> and \<^verbatim>\<open>str.lower()\<close>, on ASCII identifiers.\<close>

definition upper_char :: "char \<Rightarrow> char" where
  "upper_char c =
     (if 97 \<le> (of_char c :: nat) \<and> (of_char c :: nat) \<le> 122
      then char_of ((of_char c :: nat) - 32) else c)"

definition lower_char :: "char \<Rightarrow> char" where
  "lower_char c =
     (if 65 \<le> (of_char c :: nat) \<and> (of_char c :: nat) \<le> 90
      then char_of ((of_char c :: nat) + 32) else c)"

definition upper :: "string \<Rightarrow> string" where
  "upper s = map upper_char s"

definition lower :: "string \<Rightarrow> string" where
  "lower s = map lower_char s"

definition num_of_predictions :: nat where
  "num_of_predictions = 5"

text \<open>Reading \<^verbatim>\<open>.id\<close> of a looked-up row; on \<^verbatim>\<open>None\<close> Python raises.\<close>

fun attr_id :: "named_row option \<Rightarrow> exn + nat" where
  "attr_id None = Inl AttributeError"
| "attr_id (Some r) = Inr (id' r)"

text \<open>Lines 146 to 152, and again 156 to 160: update the prediction at the key, or create it.\<close>

definition upsert_prediction ::
  "database \<Rightarrow> nat \<Rightarrow> nat \<Rightarrow> nat \<Rightarrow> real \<Rightarrow> real \<Rightarrow> datetime \<Rightarrow> database" where
  "upsert_prediction db c p m v anchor d =
     (case get_prediction_by_date db c p m d of
        Some existing \<Rightarrow> update_prediction db existing v anchor
      | None \<Rightarrow> create_prediction db c p m v anchor d)"

text \<open>
  The loop of lines 141 to 160 over the indices still to do. Iteration \<open>i\<close> reads the
  clock once (reading \<open>i + 1\<close> of the request; reading 0 is taken at line 115).
\<close>

fun store_predictions ::
  "(nat \<Rightarrow> datetime) \<Rightarrow> string \<Rightarrow> nat \<Rightarrow> nat \<Rightarrow> nat \<Rightarrow> named_row option \<Rightarrow>
   real list \<Rightarrow> real list \<Rightarrow> real \<Rightarrow> nat list \<Rightarrow> database \<Rightarrow> (exn + unit) \<times> database" where
  "store_predictions clk period c p m sm preds preds_s anchor [] db = (Inr (), db)"
| "store_predictions clk period c p m sm preds preds_s anchor (i # rest) db =
     (let prediction_date = match_date_to_period (clk (Suc i)) period (int i) in
      if length preds \<le> i then (Inl IndexError, db)
      else
        let db1 = upsert_prediction db c p m (preds ! i) anchor prediction_date in
        if length preds_s \<le> i then (Inl IndexError, db1)
        else
          (case attr_id sm of
             Inl e \<Rightarrow> (Inl e, db1)
           | Inr sid \<Rightarrow>
               store_predictions clk period c p m sm preds preds_s anchor rest
                 (upsert_prediction db1 c p sid (preds_s ! i) anchor prediction_date)))"

text \<open>The test of line 120 (Python's \<^verbatim>\<open>and\<close> reads element 0 only of a long enough list).\<close>

definition serve_cached :: "Prediction list \<Rightarrow> real \<Rightarrow> bool" where
  "serve_cached existing last_data_value \<longleftrightarrow>
     num_of_predictions \<le> length existing \<and> last_live_value (hd existing) = last_data_value"

text \<open>Lines 122 to 160: generate new predictions and store them.\<close>

definition recompute ::
  "('m, 's, 'q) env \<Rightarrow> (nat \<Rightarrow> datetime) \<Rightarrow> string \<Rightarrow> string \<Rightarrow> PredictionRequest \<Rightarrow>
   nat \<Rightarrow> nat \<Rightarrow> nat \<Rightarrow> named_row option \<Rightarrow> real \<Rightarrow> world \<Rightarrow> (exn + unit) \<times> world" where
  "recompute env clk currency_pair period req c p m sm last_data_value st =
     (let st1 = st\<lparr>calls := calls st @ [Load_model currency_pair period]\<rparr> in
      case load_model_and_scaler env currency_pair period of
        Inl e \<Rightarrow> (Inl e, st1)
      | Inr (model, scaler) \<Rightarrow>
      (case build_sequences env (data req) scaler of
        Inl e \<Rightarrow> (Inl e, st1)
      | Inr sequences \<Rightarrow>
      (let st2 = st1\<lparr>calls := calls st1 @ [Rollout None]\<rparr> in
       case get_multiple_predictions env sequences model scaler None of
        Inl e \<Rightarrow> (Inl e, st2)
      | Inr predictions' \<Rightarrow>
      (case (case sentimentScore req of
               None \<Rightarrow> (Inr predictions', st2)
             | Some s \<Rightarrow>
                 (get_multiple_predictions env sequences model scaler (Some s),
                  st2\<lparr>calls := calls st2 @ [Rollout (Some s)]\<rparr>)) of
        (Inl e, st3) \<Rightarrow> (Inl e, st3)
      | (Inr predictions_with_sentiment, st3) \<Rightarrow>
          (case store_predictions clk period c p m sm predictions'
                  predictions_with_sentiment last_data_value [0..<num_of_predictions]
                  (store st3) of
             (r, db') \<Rightarrow> (r, st3\<lparr>store := db'\<rparr>))))))"

definition series :: "Prediction list \<Rightarrow> (real \<times> datetime) list" where
  "series ps = map (\<lambda>pred. (pred_value pred, date pred)) ps"

text \<open>The body of the \<^verbatim>\<open>try\<close> block, lines 91 to 179.\<close>

definition predict_body ::
  "('m, 's, 'q) env \<Rightarrow> (nat \<Rightarrow> datetime) \<Rightarrow> string \<Rightarrow> string \<Rightarrow> PredictionRequest \<Rightarrow>
   world \<Rightarrow> (exn + response) \<times> world" where
  "predict_body env clk currency_pair0 period0 req st =
     (let currency_pair = upper currency_pair0 in
      case get_currency_pair (store st) currency_pair of
        None \<Rightarrow> (Inl (HTTPException 400 ''Unsupported currency pair''), st)
      | Some currency_pair_record \<Rightarrow>
      (let period = lower period0 in
       case get_period (store st) period of
        None \<Rightarrow> (Inl (HTTPException 400 ''Unsupported period''), st)
      | Some period_record \<Rightarrow>
      (let LSTM_model = get_prediction_model (store st) ''LSTM'';
           LSTM_sentiment_model = get_prediction_model (store st) ''LSTM_Sentiment''
       in
       if data req = [] then (Inl IndexError, st)
       else
        (let last_data_value = Close (last (data req));
             matched_date = match_date_to_period (clk 0) period 0
         in
         case attr_id LSTM_model of
           Inl e \<Rightarrow> (Inl e, st)
         | Inr m \<Rightarrow>
         (let existing_LSTM_predictions =
                get_n_future_predictions (store st) (id' currency_pair_record)
                  (id' period_record) m matched_date num_of_predictions
          in
          case (if \<not> serve_cached existing_LSTM_predictions last_data_value
                then recompute env clk currency_pair period req (id' currency_pair_record)
                       (id' period_record) m LSTM_sentiment_model last_data_value st
                else (Inr (), st)) of
            (Inl e, st') \<Rightarrow> (Inl e, st')
          | (Inr u, st') \<Rightarrow>
              (case attr_id LSTM_sentiment_model of
                 Inl e \<Rightarrow> (Inl e, st')
               | Inr sm \<Rightarrow>
                   (Inr \<lparr>LSTM_predictions =
                           series (get_all_predictions (store st')
                             (id' currency_pair_record) (id' period_record) m),
                         LSTM_sentiment_predictions =
                           series (get_all_predictions (store st')
                             (id' currency_pair_record) (id' period_record) sm)\<rparr>,
                    st')))))))"

text \<open>
  \<^verbatim>\<open>predict\<close>: the body under its two handlers (lines 181 to 185). The second handler
  catches every \<^verbatim>\<open>Exception\<close> that is not a \<^verbatim>\<open>FileNotFoundError\<close>, the
  \<^verbatim>\<open>HTTPException\<close>s raised in the body included.
\<close>

definition predict ::
  "('m, 's, 'q) env \<Rightarrow> (nat \<Rightarrow> datetime) \<Rightarrow> string \<Rightarrow> string \<Rightarrow> PredictionRequest \<Rightarrow>
   world \<Rightarrow> (exn + response) \<times> world" where
  "predict env clk currency_pair period req st =
     (case predict_body env clk currency_pair period req st of
        (Inr r, st') \<Rightarrow> (Inr r, st')
      | (Inl (FileNotFoundError msg), st') \<Rightarrow>
          (Inl (HTTPException 404 (str env (FileNotFoundError msg))), st')
      | (Inl e, st') \<Rightarrow>
          (Inl (HTTPException 500 (''Error during prediction: '' @ str env e)), st'))"

section \<open>Notions used to state the properties\<close>

text \<open>
  The stored predictions at a key; a key whose stored predictions exist and all carry a
  given anchor; the overwriting of value and anchor; identifiers that differ in letter
  case only.
\<close>

definition rows_at :: "database \<Rightarrow> nat \<Rightarrow> nat \<Rightarrow> nat \<Rightarrow> datetime \<Rightarrow> Prediction list" where
  "rows_at db c p m d = filter (at_key c p m d) (predictions db)"

definition anchored :: "database \<Rightarrow> nat \<Rightarrow> nat \<Rightarrow> nat \<Rightarrow> datetime \<Rightarrow> real \<Rightarrow> bool" where
  "anchored db c p m d a \<longleftrightarrow>
     rows_at db c p m d \<noteq> [] \<and> list_all (\<lambda>r. last_live_value r = a) (rows_at db c p m d)"

definition overwrite :: "real \<Rightarrow> real \<Rightarrow> Prediction \<Rightarrow> Prediction" where
  "overwrite v a r = r\<lparr>pred_value := v, last_live_value := a\<rparr>"

definition same_ignoring_case :: "string \<Rightarrow> string \<Rightarrow> bool" where
  "same_ignoring_case s t \<longleftrightarrow> list_all2 (\<lambda>x y. lower_char x = lower_char y) s t"

definition valued :: "database \<Rightarrow> nat \<Rightarrow> nat \<Rightarrow> nat \<Rightarrow> datetime \<Rightarrow> real \<Rightarrow> bool" where
  "valued db c p m d v \<longleftrightarrow>
     rows_at db c p m d \<noteq> [] \<and> list_all (\<lambda>r. pred_value r = v) (rows_at db c p m d)"

definition target :: "(nat \<Rightarrow> datetime) \<Rightarrow> string \<Rightarrow> nat \<Rightarrow> datetime" where
  "target clk period i = match_date_to_period (clk (Suc i)) period (int i)"

definition cache_fresh :: "database \<Rightarrow> nat \<Rightarrow> nat \<Rightarrow> nat \<Rightarrow> datetime \<Rightarrow> real \<Rightarrow> bool" where
  "cache_fresh db c p m d x \<longleftrightarrow>
     num_of_predictions \<le> length (future_predictions db c p m d) \<and>
     last_live_value (hd (sort_key (\<lambda>r. micros (date r)) (future_predictions db c p m d))) = x"

definition period_us :: "string \<Rightarrow> int" where
  "period_us period = (if period = ''d1'' then day_us else if period = ''h1'' then hour_us else 0)"

definition new_row :: "nat \<Rightarrow> nat \<Rightarrow> nat \<Rightarrow> real \<Rightarrow> real \<Rightarrow> datetime \<Rightarrow> Prediction" where
  "new_row c p m v a d = \<lparr>currency_pair_id = c, period_id = p, model_id = m, pred_value = v,
     last_live_value = a, date = d\<rparr>"

definition upserted_rows :: "database \<Rightarrow> nat \<Rightarrow> nat \<Rightarrow> nat \<Rightarrow> real \<Rightarrow> real \<Rightarrow> datetime \<Rightarrow> Prediction list" where
  "upserted_rows db c p m v a d =
     (if rows_at db c p m d = [] then [new_row c p m v a d]
      else map (overwrite v a) (rows_at db c p m d))"

definition agree :: "database \<Rightarrow> nat \<Rightarrow> nat \<Rightarrow> nat \<Rightarrow> nat \<Rightarrow> datetime \<Rightarrow> bool" where
  "agree db c p m sm d \<longleftrightarrow> (\<exists>v. valued db c p m d v \<and> valued db c p sm d v)"

section \<open>A concrete supplier, storage, clock and request\<close>

text \<open>
  A supplier that knows a model for EURUSD only, a storage with two pairs, three periods
  and the two models, a clock standing at 2024-01-01T10:17:00, and a request of one bar.
\<close>

definition env0 :: "(unit, unit, unit) env" where
  "env0 = \<lparr>load_model_and_scaler = (\<lambda>cp p. if cp = ''EURUSD'' then Inr ((), ()) else Inl (FileNotFoundError ''no model'')),
           build_sequences = (\<lambda>d s. Inr ()),
           get_multiple_predictions = (\<lambda>q m s sc. Inr (case sc of None \<Rightarrow> [1, 2, 3, 4, 5] | Some x \<Rightarrow> [1 + x, 2 + x, 3 + x, 4 + x, 5 + x])),
           str = (\<lambda>e. case e of HTTPException c d \<Rightarrow> d | FileNotFoundError d \<Rightarrow> d | IndexError \<Rightarrow> ''IndexError''
               | AttributeError \<Rightarrow> ''AttributeError'' | OtherException d \<Rightarrow> d)\<rparr>"

definition db0 :: database where
  "db0 = \<lparr>currency_pairs = [\<lparr>id' = 1, name = ''EURUSD''\<rparr>, \<lparr>id' = 2, name = ''GBPUSD''\<rparr>],
          periods = [\<lparr>id' = 1, name = ''d1''\<rparr>, \<lparr>id' = 2, name = ''h1''\<rparr>, \<lparr>id' = 3, name = ''m5''\<rparr>],
          prediction_models = [\<lparr>id' = 1, name = ''LSTM''\<rparr>, \<lparr>id' = 2, name = ''LSTM_Sentiment''\<rparr>],
          predictions = []\<rparr>"

definition st0 :: world where
  "st0 = \<lparr>store = db0, calls = []\<rparr>"

definition now0 :: datetime where
  "now0 = \<lparr>ordinal = 738886, hour = 10, minute = 17, second = 0, microsecond = 0\<rparr>"

definition clock0 :: "nat \<Rightarrow> datetime" where
  "clock0 j = now0"

definition req0 :: PredictionRequest where
  "req0 = \<lparr>data = [\<lparr>Open = 1, High = 2, Low = 1, Close = 3/2, Volume = 10\<rparr>], sentimentScore = None\<rparr>"

definition t0 :: "int \<Rightarrow> datetime" where
  "t0 h = \<lparr>ordinal = 738886, hour = h, minute = 0, second = 0, microsecond = 0\<rparr>"

definition point :: "nat \<Rightarrow> real \<Rightarrow> real \<Rightarrow> int \<Rightarrow> Prediction" where
  "point m v a h = \<lparr>currency_pair_id = 1, period_id = 2, model_id = m, pred_value = v,
     last_live_value = a, date = t0 h\<rparr>"

definition st9 :: world where
  "st9 = \<lparr>store = db0\<lparr>predictions :=
       [point 1 1 (3/2) 10, point 2 (3/2) (3/2) 10, point 1 2 (3/2) 11, point 2 (5/2) (3/2) 11,
        point 1 3 (3/2) 12, point 2 (7/2) (3/2) 12, point 1 4 (3/2) 13, point 2 (9/2) (3/2) 13,
        point 1 5 (3/2) 14, point 2 (11/2) (3/2) 14]\<rparr>,
     calls = [Load_model ''EURUSD'' ''h1'', Rollout None, Rollout (Some (1/2))]\<rparr>"

definition req2 :: PredictionRequest where
  "req2 = \<lparr>data = [\<lparr>Open = 1, High = 2, Low = 1, Close = 3/2, Volume = 10\<rparr>,
                   \<lparr>Open = 3/2, High = 3, Low = 1, Close = 2, Volume = 12\<rparr>],
           sentimentScore = Some (1/2)\<rparr>"

definition resp2 :: response where
  "resp2 = projr (fst (predict env0 clock0 ''eurusd'' ''h1'' req2 st9))"

definition st2 :: world where
  "st2 = snd (predict env0 clock0 ''eurusd'' ''h1'' req2 st9)"

definition sentiment_row :: named_row where
  "sentiment_row = \<lparr>id' = 2, name = ''LSTM_Sentiment''\<rparr>"

definition eurusd_row :: named_row where
  "eurusd_row = \<lparr>id' = 1, name = ''EURUSD''\<rparr>"

definition h1_row :: named_row where
  "h1_row = \<lparr>id' = 2, name = ''h1''\<rparr>"

definition lstm_row :: named_row where
  "lstm_row = \<lparr>id' = 1, name = ''LSTM''\<rparr>"

definition st_m5 :: world where
  "st_m5 = \<lparr>store = db0\<lparr>predictions :=
       [\<lparr>currency_pair_id = 1, period_id = 3, model_id = 1, pred_value = 5,
          last_live_value = 3/2, date = now0\<rparr>,
        \<lparr>currency_pair_id = 1, period_id = 3, model_id = 2, pred_value = 5,
          last_live_value = 3/2, date = now0\<rparr>]\<rparr>,
     calls = [Load_model ''EURUSD'' ''m5'', Rollout None]\<rparr>"

definition req3 :: PredictionRequest where
  "req3 = \<lparr>data = [\<lparr>Open = 1, High = 2, Low = 1, Close = 3/2, Volume = 10\<rparr>,
                   \<lparr>Open = 3/2, High = 3, Low = 1, Close = 2, Volume = 12\<rparr>],
           sentimentScore = None\<rparr>"

definition resp3 :: response where
  "resp3 = projr (fst (predict env0 clock0 ''eurusd'' ''h1'' req3 st9))"

definition st3 :: world where
  "st3 = snd (predict env0 clock0 ''eurusd'' ''h1'' req3 st9)"

section \<open>Properties of the period alignment\<close>

lemma micros_plus_days:
  "micros (plus_offset t (DateOffset_days k)) = micros t + k * day_us"
  by (simp add: micros_def day_us_def algebra_simps)

lemma micros_plus_hours:
  "micros (plus_offset t (DateOffset_hours k)) = micros t + k * hour_us"
proof -
  have "((hour t + k) div 24) * 24 + (hour t + k) mod 24 = hour t + k"
    by simp
  then have "(ordinal t + (hour t + k) div 24) * 24 + (hour t + k) mod 24
      = ordinal t * 24 + hour t + k"
    by (simp add: algebra_simps)
  then show ?thesis
    by (simp add: micros_def hour_us_def algebra_simps)
qed

lemma valid_plus_hours:
  "valid_datetime t \<Longrightarrow> valid_datetime (plus_offset t (DateOffset_hours k))"
  by (simp add: valid_datetime_def)

text \<open>
  C2, as amended. For period \<^verbatim>\<open>h1\<close> the target timestamp is the start of the hour that
  contains the clock reading (not the next hour boundary), moved by \<^verbatim>\<open>offset\<close> whole
  hours: it is a valid datetime on an hour boundary, it lies \<^verbatim>\<open>offset\<close> hours after an
  instant \<open>b\<close> with \<open>b \<le> now < b + 1h\<close>.
\<close>

theorem h1_target_is_current_hour_plus_offset:
  assumes "valid_datetime now"
  shows "valid_datetime (match_date_to_period now ''h1'' k)
    \<and> minute (match_date_to_period now ''h1'' k) = 0
    \<and> second (match_date_to_period now ''h1'' k) = 0
    \<and> microsecond (match_date_to_period now ''h1'' k) = 0
    \<and> micros (match_date_to_period now ''h1'' k) - k * hour_us \<le> micros now
    \<and> micros now < micros (match_date_to_period now ''h1'' k) - k * hour_us + hour_us"
proof -
  let ?b = "now\<lparr>minute := 0, second := 0, microsecond := 0\<rparr>"
  have m: "match_date_to_period now ''h1'' k = plus_offset ?b (DateOffset_hours k)"
    by (simp add: match_date_to_period_def)
  have vb: "valid_datetime ?b"
    using assms by (simp add: valid_datetime_def)
  have lo: "micros ?b \<le> micros now"
    using assms by (simp add: micros_def valid_datetime_def)
  have hi: "micros now < micros ?b + hour_us"
    using assms by (simp add: micros_def valid_datetime_def hour_us_def)
  have v: "valid_datetime (plus_offset ?b (DateOffset_hours k))"
    using vb by (rule valid_plus_hours)
  have mu: "micros (plus_offset ?b (DateOffset_hours k)) = micros ?b + k * hour_us"
    by (rule micros_plus_hours)
  show ?thesis
    unfolding m using v lo hi mu by simp
qed

theorem h1_target_is_current_hour_plus_offset_witness:
  "valid_datetime \<lparr>ordinal = 738886, hour = 10, minute = 17, second = 0, microsecond = 0\<rparr>
   \<and> match_date_to_period
        \<lparr>ordinal = 738886, hour = 10, minute = 17, second = 0, microsecond = 0\<rparr> ''h1'' 1
     = \<lparr>ordinal = 738886, hour = 11, minute = 0, second = 0, microsecond = 0\<rparr>
   \<and> micros (match_date_to_period
        \<lparr>ordinal = 738886, hour = 10, minute = 17, second = 0, microsecond = 0\<rparr> ''h1'' 1)
       - 1 * hour_us
     \<le> micros \<lparr>ordinal = 738886, hour = 10, minute = 17, second = 0, microsecond = 0\<rparr>"
proof -
  have v: "valid_datetime
      \<lparr>ordinal = 738886, hour = 10, minute = 17, second = 0, microsecond = 0\<rparr>"
    by (simp add: valid_datetime_def)
  have e: "match_date_to_period
        \<lparr>ordinal = 738886, hour = 10, minute = 17, second = 0, microsecond = 0\<rparr> ''h1'' 1
     = \<lparr>ordinal = 738886, hour = 11, minute = 0, second = 0, microsecond = 0\<rparr>"
    by (simp add: match_date_to_period_def)
  show ?thesis
    using v e h1_target_is_current_hour_plus_offset [OF v, of 1] by simp
qed

text \<open>
  C2, as stated, fails on its own example: with the clock at 2024-01-01T10:17:00
  (ordinal 738886) and offset 0 the code returns 10:00:00 of that day, not 11:00:00.
\<close>

theorem h1_next_hour_counterexample:
  "match_date_to_period
      \<lparr>ordinal = 738886, hour = 10, minute = 17, second = 0, microsecond = 0\<rparr> ''h1'' 0
    = \<lparr>ordinal = 738886, hour = 10, minute = 0, second = 0, microsecond = 0\<rparr>
   \<and> match_date_to_period
      \<lparr>ordinal = 738886, hour = 10, minute = 17, second = 0, microsecond = 0\<rparr> ''h1'' 0
    \<noteq> \<lparr>ordinal = 738886, hour = 11, minute = 0, second = 0, microsecond = 0\<rparr>"
  by (simp add: match_date_to_period_def)

text \<open>
  C3. For period \<^verbatim>\<open>d1\<close> and every offset \<open>k \<ge> 0\<close> the target timestamp is midnight of
  the day \<open>k + 1\<close> days after the current day, an instant strictly later than the clock
  reading; so offset 0 is never the current day.
\<close>

theorem d1_target_is_later_day:
  assumes "valid_datetime now" and "0 \<le> k"
  shows "match_date_to_period now ''d1'' k
      = \<lparr>ordinal = ordinal now + (k + 1), hour = 0, minute = 0, second = 0, microsecond = 0\<rparr>
    \<and> ordinal now < ordinal (match_date_to_period now ''d1'' k)
    \<and> micros now < micros (match_date_to_period now ''d1'' k)"
proof -
  have e: "match_date_to_period now ''d1'' k
      = \<lparr>ordinal = ordinal now + (k + 1), hour = 0, minute = 0, second = 0, microsecond = 0\<rparr>"
    by (simp add: match_date_to_period_def)
  have "micros now < (ordinal now + 1) * day_us"
    using assms(1) by (simp add: micros_def valid_datetime_def day_us_def)
  also have "\<dots> \<le> (ordinal now + (k + 1)) * day_us"
    using assms(2) by (simp add: day_us_def)
  also have "\<dots> = micros \<lparr>ordinal = ordinal now + (k + 1), hour = 0, minute = 0,
      second = 0, microsecond = 0\<rparr>"
    by (simp add: micros_def day_us_def)
  finally have "micros now < micros (match_date_to_period now ''d1'' k)"
    using e by simp
  then show ?thesis
    using e assms(2) by simp
qed

theorem d1_target_is_later_day_witness:
  "valid_datetime \<lparr>ordinal = 738886, hour = 10, minute = 17, second = 0, microsecond = 0\<rparr>
   \<and> (0::int) \<le> 0
   \<and> match_date_to_period
        \<lparr>ordinal = 738886, hour = 10, minute = 17, second = 0, microsecond = 0\<rparr> ''d1'' 0
     = \<lparr>ordinal = 738887, hour = 0, minute = 0, second = 0, microsecond = 0\<rparr>"
proof -
  have v: "valid_datetime
      \<lparr>ordinal = 738886, hour = 10, minute = 17, second = 0, microsecond = 0\<rparr>"
    by (simp add: valid_datetime_def)
  have k: "(0::int) \<le> 0" by simp
  show ?thesis
    using v d1_target_is_later_day [OF v k] by simp
qed


section \<open>Storage and endpoint lemmas\<close>

lemma predict_body_validated:
  assumes "get_currency_pair (store st) (upper cp) = Some c"
    and "get_period (store st) (lower p) = Some pr"
    and "get_prediction_model (store st) ''LSTM'' = Some m"
    and "data req \<noteq> []"
  shows "predict_body env clk cp p req st =
    (case (if \<not> serve_cached
                (get_n_future_predictions (store st) (id' c) (id' pr) (id' m)
                   (match_date_to_period (clk 0) (lower p) 0) num_of_predictions)
                (Close (last (data req)))
           then recompute env clk (upper cp) (lower p) req (id' c) (id' pr) (id' m)
                  (get_prediction_model (store st) ''LSTM_Sentiment'')
                  (Close (last (data req))) st
           else (Inr (), st)) of
       (Inl e, st') \<Rightarrow> (Inl e, st')
     | (Inr u, st') \<Rightarrow>
         (case attr_id (get_prediction_model (store st) ''LSTM_Sentiment'') of
            Inl e \<Rightarrow> (Inl e, st')
          | Inr sm \<Rightarrow>
              (Inr \<lparr>LSTM_predictions =
                      series (get_all_predictions (store st') (id' c) (id' pr) (id' m)),
                    LSTM_sentiment_predictions =
                      series (get_all_predictions (store st') (id' c) (id' pr) sm)\<rparr>,
               st')))"
  using assms by (simp add: predict_body_def Let_def)

lemma predict_state: "snd (predict env clk cp p req st) = snd (predict_body env clk cp p req st)"
  by (simp add: predict_def split: prod.splits sum.splits exn.splits)

lemma predict_Inr_iff:
  "predict env clk cp p req st = (Inr r, st') \<longleftrightarrow> predict_body env clk cp p req st = (Inr r, st')"
  by (auto simp add: predict_def split: prod.splits sum.splits exn.splits)

lemma recompute_calls:
  "\<exists>rest. calls (snd (recompute env clk cp p req c pr m sm a st))
      = calls st @ Load_model cp p # rest"
  by (auto simp add: recompute_def Let_def split: sum.splits prod.splits option.splits)

lemma recompute_not_found:
  assumes "load_model_and_scaler env cp p = Inl e"
  shows "recompute env clk cp p req c pr m sm a st
     = (Inl e, st\<lparr>calls := calls st @ [Load_model cp p]\<rparr>)"
  using assms by (simp add: recompute_def Let_def)

lemma at_key_overwrite [simp]: "at_key c p m d (overwrite v a r) = at_key c p m d r"
  by (simp add: at_key_def of_triple_def overwrite_def)

lemma find_at_key_None: "find P xs = None \<longleftrightarrow> filter P xs = []"
  by (induction xs) auto

lemma find_at_key_Some: "find P xs = Some x \<Longrightarrow> P x \<and> filter P xs \<noteq> []"
  by (induction xs) (auto split: if_splits)

lemma at_key_of_member:
  "at_key c p m d e \<Longrightarrow> at_key (currency_pair_id e) (period_id e) (model_id e) (date e) = at_key c p m d"
  by (auto simp add: at_key_def of_triple_def fun_eq_iff)

lemma predictions_upsert:
  "predictions (upsert_prediction db c p m v a d) =
     (if rows_at db c p m d = []
      then predictions db @
        [\<lparr>currency_pair_id = c, period_id = p, model_id = m, pred_value = v,
          last_live_value = a, date = d\<rparr>]
      else map (\<lambda>r. if at_key c p m d r then overwrite v a r else r) (predictions db))"
proof (cases "get_prediction_by_date db c p m d")
  case None
  then have "rows_at db c p m d = []"
    by (simp add: get_prediction_by_date_def rows_at_def find_at_key_None)
  with None show ?thesis
    by (simp add: upsert_prediction_def create_prediction_def)
next
  case (Some e)
  then have e: "at_key c p m d e" and ne: "rows_at db c p m d \<noteq> []"
    using find_at_key_Some [of "at_key c p m d" "predictions db" e]
    by (simp_all add: get_prediction_by_date_def rows_at_def)
  show ?thesis
    using Some ne at_key_of_member [OF e]
    by (simp add: upsert_prediction_def update_prediction_def overwrite_def)
qed


lemma filter_map_overwrite:
  "filter (at_key c' p' m' d') (map (\<lambda>r. if at_key c p m d r then overwrite v a r else r) xs)
   = map (\<lambda>r. if at_key c p m d r then overwrite v a r else r) (filter (at_key c' p' m' d') xs)"
  by (induction xs) auto

lemma rows_upsert_same:
  assumes "micros d' = micros d"
  shows "rows_at (upsert_prediction db c p m v a d) c p m d' =
     (if rows_at db c p m d = []
      then [\<lparr>currency_pair_id = c, period_id = p, model_id = m, pred_value = v,
          last_live_value = a, date = d\<rparr>]
      else map (overwrite v a) (rows_at db c p m d))"
proof -
  have k: "at_key c p m d' = at_key c p m d"
    using assms by (simp add: at_key_def fun_eq_iff)
  have "map (\<lambda>r. if at_key c p m d r then overwrite v a r else r) (filter (at_key c p m d) xs)
      = map (overwrite v a) (filter (at_key c p m d) xs)" for xs
    by (induction xs) auto
  then show ?thesis
    unfolding rows_at_def k predictions_upsert [unfolded rows_at_def]
    by (simp add: filter_map_overwrite) (simp add: at_key_def of_triple_def)
qed

lemma rows_upsert_other:
  assumes "\<not> (c' = c \<and> p' = p \<and> m' = m \<and> micros d' = micros d)"
  shows "rows_at (upsert_prediction db c p m v a d) c' p' m' d' = rows_at db c' p' m' d'"
proof -
  have n: "at_key c' p' m' d' r \<Longrightarrow> \<not> at_key c p m d r" for r
    using assms by (auto simp add: at_key_def of_triple_def)
  have "map (\<lambda>r. if at_key c p m d r then overwrite v a r else r) (filter (at_key c' p' m' d') xs)
      = filter (at_key c' p' m' d') xs" for xs
    by (induction xs) (auto simp add: n)
  then show ?thesis
    unfolding rows_at_def predictions_upsert [unfolded rows_at_def]
    using assms by (simp add: filter_map_overwrite) (auto simp add: at_key_def of_triple_def)
qed

lemma upper_lower_char: "upper_char (lower_char c) = upper_char c"
proof (cases "65 \<le> (of_char c :: nat) \<and> (of_char c :: nat) \<le> 90")
  case True
  then have m: "((of_char c :: nat) + 32) mod 256 = of_char c + 32"
    by simp
  have "char_of ((of_char c :: nat) + 32 - 32) = c"
    by simp
  with True m show ?thesis
    by (simp add: lower_char_def upper_char_def)
next
  case False
  then have "lower_char c = c"
    unfolding lower_char_def by (rule if_not_P)
  then show ?thesis
    by simp
qed

lemma same_ignoring_case_lower: "same_ignoring_case s t \<Longrightarrow> lower s = lower t"
  unfolding same_ignoring_case_def lower_def
  by (induction s t rule: list_all2_induct) simp_all

lemma same_ignoring_case_upper: "same_ignoring_case s t \<Longrightarrow> upper s = upper t"
  unfolding same_ignoring_case_def upper_def
proof (induction s t rule: list_all2_induct)
  case Nil
  show ?case by simp
next
  case (Cons x xs y ys)
  have "upper_char x = upper_char (lower_char x)" by (simp add: upper_lower_char)
  also have "\<dots> = upper_char (lower_char y)" using Cons.hyps(1) by simp
  also have "\<dots> = upper_char y" by (simp add: upper_lower_char)
  finally show ?case using Cons.IH by simp
qed

text \<open>
  C10. \<^verbatim>\<open>predict\<close> does not depend on the letter case of its two path identifiers:
  the pair name is uppercased and the period name lowercased before any lookup, so two
  requests whose identifiers differ in letter case only give the same outcome and the same
  final state.
\<close>

theorem predict_case_invariant:
  assumes "same_ignoring_case cp cp'" and "same_ignoring_case p p'"
  shows "predict env clk cp p req st = predict env clk cp' p' req st"
proof -
  have u: "upper cp = upper cp'" using assms(1) by (rule same_ignoring_case_upper)
  have l: "lower p = lower p'" using assms(2) by (rule same_ignoring_case_lower)
  have "predict_body env clk cp p req st = predict_body env clk cp' p' req st"
    unfolding predict_body_def u l ..
  then show ?thesis by (simp add: predict_def)
qed

theorem predict_case_invariant_witness:
  "same_ignoring_case ''eurusd'' ''EurUsd'' \<and> same_ignoring_case ''H1'' ''h1''
   \<and> predict env0 clock0 ''eurusd'' ''H1'' req0 st0 = predict env0 clock0 ''EurUsd'' ''h1'' req0 st0"
proof -
  have a: "same_ignoring_case ''eurusd'' ''EurUsd''" by code_simp
  have b: "same_ignoring_case ''H1'' ''h1''" by code_simp
  show ?thesis using a b predict_case_invariant [OF a b] by blast
qed

text \<open>
  C6 (what the code does). For a currency pair or a period unknown to storage the body
  raises \<^verbatim>\<open>HTTPException(400)\<close>, but the handler of line 183 catches it with every other
  \<^verbatim>\<open>Exception\<close>: the caller receives status 500, the outcome of an internal failure.
\<close>

theorem unknown_identifier_gives_500:
  "(get_currency_pair (store st) (upper cp) = None \<longrightarrow>
      predict env clk cp p req st =
        (Inl (HTTPException 500 (''Error during prediction: '' @
            str env (HTTPException 400 ''Unsupported currency pair''))), st))
   \<and> (get_currency_pair (store st) (upper cp) \<noteq> None \<and> get_period (store st) (lower p) = None \<longrightarrow>
      predict env clk cp p req st =
        (Inl (HTTPException 500 (''Error during prediction: '' @
            str env (HTTPException 400 ''Unsupported period''))), st))"
  by (auto simp add: predict_def predict_body_def)

theorem unknown_identifier_gives_500_witness:
  "get_currency_pair (store st0) (upper ''usdjpy'') = None
   \<and> predict env0 clock0 ''usdjpy'' ''h1'' req0 st0 =
        (Inl (HTTPException 500 (''Error during prediction: '' @
            str env0 (HTTPException 400 ''Unsupported currency pair''))), st0)
   \<and> get_currency_pair (store st0) (upper ''eurusd'') \<noteq> None
   \<and> get_period (store st0) (lower ''w1'') = None
   \<and> predict env0 clock0 ''eurusd'' ''w1'' req0 st0 =
        (Inl (HTTPException 500 (''Error during prediction: '' @
            str env0 (HTTPException 400 ''Unsupported period''))), st0)"
proof -
  have a: "get_currency_pair (store st0) (upper ''usdjpy'') = None" by code_simp
  have b: "get_currency_pair (store st0) (upper ''eurusd'') \<noteq> None" by code_simp
  have c: "get_period (store st0) (lower ''w1'') = None" by code_simp
  show ?thesis
    using a b c unknown_identifier_gives_500 [where st = st0 and cp = "''usdjpy''" and p = "''h1''" and env = env0 and clk = clock0 and req = req0]
      unknown_identifier_gives_500 [where st = st0 and cp = "''eurusd''" and p = "''w1''" and env = env0 and clk = clock0 and req = req0]
    by blast
qed

text \<open>
  C7. When storage knows the pair, the period and the plain model, the cache is not fresh
  and the supplier finds no artifact (\<^verbatim>\<open>load_model_and_scaler\<close> raises
  \<^verbatim>\<open>FileNotFoundError\<close>), \<^verbatim>\<open>predict\<close> fails with status 404, neither 400 nor 500.
\<close>

theorem missing_artifact_gives_404:
  assumes "get_currency_pair (store st) (upper cp) = Some c"
    and "get_period (store st) (lower p) = Some pr"
    and "get_prediction_model (store st) ''LSTM'' = Some m"
    and "data req \<noteq> []"
    and "\<not> serve_cached
           (get_n_future_predictions (store st) (id' c) (id' pr) (id' m)
              (match_date_to_period (clk 0) (lower p) 0) num_of_predictions)
           (Close (last (data req)))"
    and "load_model_and_scaler env (upper cp) (lower p) = Inl (FileNotFoundError msg)"
  shows "predict env clk cp p req st =
     (Inl (HTTPException 404 (str env (FileNotFoundError msg))),
      st\<lparr>calls := calls st @ [Load_model (upper cp) (lower p)]\<rparr>)"
  unfolding predict_def predict_body_validated [OF assms(1-4)]
  using assms(5) by (simp add: recompute_not_found [OF assms(6)])

theorem missing_artifact_gives_404_witness:
  "get_currency_pair (store st0) (upper ''gbpusd'') = Some \<lparr>id' = 2, name = ''GBPUSD''\<rparr>
   \<and> get_period (store st0) (lower ''H1'') = Some \<lparr>id' = 2, name = ''h1''\<rparr>
   \<and> get_prediction_model (store st0) ''LSTM'' = Some \<lparr>id' = 1, name = ''LSTM''\<rparr>
   \<and> data req0 \<noteq> []
   \<and> \<not> serve_cached
           (get_n_future_predictions (store st0) (id' \<lparr>id' = 2, name = ''GBPUSD''\<rparr>)
              (id' \<lparr>id' = 2, name = ''h1''\<rparr>) (id' \<lparr>id' = 1, name = ''LSTM''\<rparr>)
              (match_date_to_period (clock0 0) (lower ''H1'') 0) num_of_predictions)
           (Close (last (data req0)))
   \<and> load_model_and_scaler env0 (upper ''gbpusd'') (lower ''H1'')
       = Inl (FileNotFoundError ''no model'')
   \<and> predict env0 clock0 ''gbpusd'' ''H1'' req0 st0 =
     (Inl (HTTPException 404 (str env0 (FileNotFoundError ''no model''))),
      st0\<lparr>calls := calls st0 @ [Load_model (upper ''gbpusd'') (lower ''H1'')]\<rparr>)"
proof -
  have a: "get_currency_pair (store st0) (upper ''gbpusd'') = Some \<lparr>id' = 2, name = ''GBPUSD''\<rparr>"
    by code_simp
  have b: "get_period (store st0) (lower ''H1'') = Some \<lparr>id' = 2, name = ''h1''\<rparr>"
    by code_simp
  have c: "get_prediction_model (store st0) ''LSTM'' = Some \<lparr>id' = 1, name = ''LSTM''\<rparr>"
    by code_simp
  have d: "data req0 \<noteq> []"
    by code_simp
  have e: "\<not> serve_cached
           (get_n_future_predictions (store st0) (id' \<lparr>id' = 2, name = ''GBPUSD''\<rparr>)
              (id' \<lparr>id' = 2, name = ''h1''\<rparr>) (id' \<lparr>id' = 1, name = ''LSTM''\<rparr>)
              (match_date_to_period (clock0 0) (lower ''H1'') 0) num_of_predictions)
           (Close (last (data req0)))"
    by code_simp
  have f: "load_model_and_scaler env0 (upper ''gbpusd'') (lower ''H1'')
       = Inl (FileNotFoundError ''no model'')"
    by code_simp
  show ?thesis
    using a b c d e f missing_artifact_gives_404 [where clk = clock0, OF a b c d e f] by blast
qed

lemma store_predictions_Cons:
  assumes "store_predictions clk period c p m sm preds pws a (i # rest) db = (Inr u, db')"
  shows "\<exists>s. sm = Some s \<and> i < length preds \<and> i < length pws \<and>
     store_predictions clk period c p m sm preds pws a rest
       (upsert_prediction
          (upsert_prediction db c p m (preds ! i) a (target clk period i))
          c p (id' s) (pws ! i) a (target clk period i)) = (Inr u, db')"
  using assms
  by (cases sm) (auto simp add: Let_def target_def split: if_splits)

lemma store_predictions_preserves:
  assumes step: "\<And>db mm v d. Q db \<Longrightarrow> Q (upsert_prediction db c p mm v a d)"
    and "Q db"
    and "store_predictions clk period c p m sm preds pws a js db = (Inr u, db')"
  shows "Q db'"
  using assms(2,3)
proof (induction js arbitrary: db)
  case Nil
  then show ?case by simp
next
  case (Cons i rest)
  from store_predictions_Cons [OF Cons.prems(2)] obtain s :: named_row where
    run: "store_predictions clk period c p m sm preds pws a rest
       (upsert_prediction
          (upsert_prediction db c p m (preds ! i) a (target clk period i))
          c p (id' s) (pws ! i) a (target clk period i)) = (Inr u, db')"
    by auto
  have "Q (upsert_prediction
          (upsert_prediction db c p m (preds ! i) a (target clk period i))
          c p (id' s) (pws ! i) a (target clk period i))"
    using Cons.prems(1) by (intro step)
  from Cons.IH [OF this run] show ?case .
qed

lemma anchored_upsert_same:
  assumes "micros d' = micros d"
  shows "anchored (upsert_prediction db c p m v a d) c p m d' a"
  unfolding anchored_def rows_upsert_same [OF assms]
  by (simp add: list_all_iff overwrite_def)

lemma anchored_upsert_preserve:
  assumes "anchored db c' p' m' d' a"
  shows "anchored (upsert_prediction db c p m v a d) c' p' m' d' a"
proof (cases "c' = c \<and> p' = p \<and> m' = m \<and> micros d' = micros d")
  case True
  then show ?thesis using anchored_upsert_same [of d' d db c p m v a] by simp
next
  case False
  then show ?thesis
    using assms by (simp add: anchored_def rows_upsert_other)
qed

lemma store_predictions_anchored:
  assumes "store_predictions clk period c p m (Some s) preds pws a js db = (Inr u, db')"
    and "i \<in> set js"
  shows "anchored db' c p m (target clk period i) a
       \<and> anchored db' c p (id' s) (target clk period i) a"
  using assms
proof (induction js arbitrary: db)
  case Nil
  then show ?case by simp
next
  case (Cons j rest)
  let ?db1 = "upsert_prediction db c p m (preds ! j) a (target clk period j)"
  let ?db2 = "upsert_prediction ?db1 c p (id' s) (pws ! j) a (target clk period j)"
  from store_predictions_Cons [OF Cons.prems(1)]
  have run: "store_predictions clk period c p m (Some s) preds pws a rest ?db2 = (Inr u, db')"
    by simp
  show ?case
  proof (cases "i = j")
    case True
    have a1: "anchored ?db2 c p m (target clk period j) a"
      by (intro anchored_upsert_preserve anchored_upsert_same) simp
    have a2: "anchored ?db2 c p (id' s) (target clk period j) a"
      by (intro anchored_upsert_same) simp
    have "anchored db' c p m (target clk period j) a"
      using a1 run
      by (rule store_predictions_preserves [rotated 1]) (rule anchored_upsert_preserve)
    moreover have "anchored db' c p (id' s) (target clk period j) a"
      using a2 run
      by (rule store_predictions_preserves [rotated 1]) (rule anchored_upsert_preserve)
    ultimately show ?thesis using True by simp
  next
    case False
    with Cons.prems(2) have "i \<in> set rest" by simp
    from Cons.IH [OF run this] show ?thesis .
  qed
qed


lemma serve_cached_iff_fresh:
  "serve_cached (get_n_future_predictions db c p m d num_of_predictions) x
     \<longleftrightarrow> cache_fresh db c p m d x"
proof (cases "5 \<le> length (future_predictions db c p m d)")
  case True
  then have "sort_key (\<lambda>r. micros (date r)) (future_predictions db c p m d) \<noteq> []"
    by (auto simp add: length_0_conv [symmetric] simp del: length_0_conv)
  then have "hd (take 5 (sort_key (\<lambda>r. micros (date r)) (future_predictions db c p m d)))
      = hd (sort_key (\<lambda>r. micros (date r)) (future_predictions db c p m d))"
    by (cases "sort_key (\<lambda>r. micros (date r)) (future_predictions db c p m d)") simp_all
  with True show ?thesis
    by (simp add: serve_cached_def cache_fresh_def get_n_future_predictions_def
        num_of_predictions_def)
next
  case False
  then show ?thesis
    by (simp add: serve_cached_def cache_fresh_def get_n_future_predictions_def
        num_of_predictions_def)
qed

lemma recompute_success:
  assumes "recompute env clk cp p req c pr m sm a st = (Inr u, st')"
  shows "\<exists>model scaler seqs preds pws.
      load_model_and_scaler env cp p = Inr (model, scaler)
    \<and> build_sequences env (data req) scaler = Inr seqs
    \<and> get_multiple_predictions env seqs model scaler None = Inr preds
    \<and> (case sentimentScore req of None \<Rightarrow> Inr preds
        | Some s \<Rightarrow> get_multiple_predictions env seqs model scaler (Some s)) = Inr pws
    \<and> store_predictions clk p c pr m sm preds pws a [0..<num_of_predictions] (store st)
        = (Inr u, store st')
    \<and> calls st' = calls st @ [Load_model cp p, Rollout None] @
        (case sentimentScore req of None \<Rightarrow> [] | Some s \<Rightarrow> [Rollout (Some s)])"
  using assms
  by (auto simp add: recompute_def Let_def split: sum.splits prod.splits option.splits)

lemma predict_recomputed:
  assumes "get_currency_pair (store st) (upper cp) = Some c"
    and "get_period (store st) (lower p) = Some pr"
    and "get_prediction_model (store st) ''LSTM'' = Some m"
    and "data req \<noteq> []"
    and "\<not> cache_fresh (store st) (id' c) (id' pr) (id' m)
           (match_date_to_period (clk 0) (lower p) 0) (Close (last (data req)))"
    and "predict env clk cp p req st = (Inr resp, st')"
  shows "\<exists>s. get_prediction_model (store st) ''LSTM_Sentiment'' = Some s
    \<and> recompute env clk (upper cp) (lower p) req (id' c) (id' pr) (id' m) (Some s)
        (Close (last (data req))) st = (Inr (), st')
    \<and> resp = \<lparr>LSTM_predictions =
                series (get_all_predictions (store st') (id' c) (id' pr) (id' m)),
              LSTM_sentiment_predictions =
                series (get_all_predictions (store st') (id' c) (id' pr) (id' s))\<rparr>"
proof -
  have b: "predict_body env clk cp p req st = (Inr resp, st')"
    using assms(6) by (simp add: predict_Inr_iff)
  show ?thesis
  proof (cases "get_prediction_model (store st) ''LSTM_Sentiment''")
    case None
    with b show ?thesis
      unfolding predict_body_validated [OF assms(1-4)]
      by (simp split: prod.splits sum.splits if_splits)
  next
    case (Some s)
    with b assms(5) show ?thesis
      unfolding predict_body_validated [OF assms(1-4)] serve_cached_iff_fresh
      by (auto split: prod.splits sum.splits)
  qed
qed

lemma predict_cached:
  assumes "get_currency_pair (store st) (upper cp) = Some c"
    and "get_period (store st) (lower p) = Some pr"
    and "get_prediction_model (store st) ''LSTM'' = Some m"
    and "data req \<noteq> []"
    and "cache_fresh (store st) (id' c) (id' pr) (id' m)
           (match_date_to_period (clk 0) (lower p) 0) (Close (last (data req)))"
  shows "predict env clk cp p req st =
    (case get_prediction_model (store st) ''LSTM_Sentiment'' of
       None \<Rightarrow> (Inl (HTTPException 500 (''Error during prediction: '' @ str env AttributeError)), st)
     | Some s \<Rightarrow>
        (Inr \<lparr>LSTM_predictions =
                series (get_all_predictions (store st) (id' c) (id' pr) (id' m)),
              LSTM_sentiment_predictions =
                series (get_all_predictions (store st) (id' c) (id' pr) (id' s))\<rparr>, st))"
  unfolding predict_def predict_body_validated [OF assms(1-4)] serve_cached_iff_fresh
  using assms(5) by (simp split: option.splits)

lemma predict_not_fresh_calls:
  assumes "get_currency_pair (store st) (upper cp) = Some c"
    and "get_period (store st) (lower p) = Some pr"
    and "get_prediction_model (store st) ''LSTM'' = Some m"
    and "data req \<noteq> []"
    and "\<not> cache_fresh (store st) (id' c) (id' pr) (id' m)
           (match_date_to_period (clk 0) (lower p) 0) (Close (last (data req)))"
  shows "\<exists>rest. calls (snd (predict env clk cp p req st))
      = calls st @ Load_model (upper cp) (lower p) # rest"
proof -
  obtain rest where r: "calls (snd (recompute env clk (upper cp) (lower p) req (id' c) (id' pr)
      (id' m) (get_prediction_model (store st) ''LSTM_Sentiment'')
      (Close (last (data req))) st)) = calls st @ Load_model (upper cp) (lower p) # rest"
    using recompute_calls by blast
  show ?thesis
    unfolding predict_state predict_body_validated [OF assms(1-4)] serve_cached_iff_fresh
    using assms(5) r by (auto split: prod.splits sum.splits)
qed

lemma store_predictions_succeeds:
  assumes "\<forall>i\<in>set js. i < length preds \<and> i < length pws"
  shows "\<exists>db'. store_predictions clk period c p m (Some s) preds pws a js db = (Inr (), db')"
  using assms by (induction js arbitrary: db) (simp_all add: Let_def)

lemma recompute_succeeds:
  assumes "load_model_and_scaler env cp p = Inr (model, scaler)"
    and "build_sequences env (data req) scaler = Inr seqs"
    and "get_multiple_predictions env seqs model scaler None = Inr preds"
    and "(case sentimentScore req of None \<Rightarrow> Inr preds
        | Some x \<Rightarrow> get_multiple_predictions env seqs model scaler (Some x)) = Inr pws"
    and "num_of_predictions \<le> length preds" and "num_of_predictions \<le> length pws"
  shows "\<exists>st'. recompute env clk cp p req c pr m (Some s) a st = (Inr (), st')"
proof -
  have "\<forall>i\<in>set [0..<num_of_predictions]. i < length preds \<and> i < length pws"
    using assms(5,6) by simp
  from store_predictions_succeeds [OF this] obtain db' where
    run: "store_predictions clk p c pr m (Some s) preds pws a [0..<num_of_predictions]
        (store st) = (Inr (), db')"
    by blast
  show ?thesis
  proof (cases "sentimentScore req")
    case None
    with assms(4) have "pws = preds" by simp
    with None run assms(1-3) show ?thesis
      by (simp add: recompute_def Let_def)
  next
    case (Some x)
    with assms(4) have "get_multiple_predictions env seqs model scaler (Some x) = Inr pws"
      by simp
    with Some run assms(1-3) show ?thesis
      by (simp add: recompute_def Let_def)
  qed
qed

lemma predict_succeeds:
  assumes "get_currency_pair (store st) (upper cp) = Some c"
    and "get_period (store st) (lower p) = Some pr"
    and "get_prediction_model (store st) ''LSTM'' = Some m"
    and "data req \<noteq> []"
    and "get_prediction_model (store st) ''LSTM_Sentiment'' = Some s"
    and "load_model_and_scaler env (upper cp) (lower p) = Inr (model, scaler)"
    and "build_sequences env (data req) scaler = Inr seqs"
    and "get_multiple_predictions env seqs model scaler None = Inr preds"
    and "(case sentimentScore req of None \<Rightarrow> Inr preds
        | Some x \<Rightarrow> get_multiple_predictions env seqs model scaler (Some x)) = Inr pws"
    and "num_of_predictions \<le> length preds" and "num_of_predictions \<le> length pws"
  shows "predict env clk cp p req st =
     (Inr (projr (fst (predict env clk cp p req st))), snd (predict env clk cp p req st))"
proof -
  obtain st' where "recompute env clk (upper cp) (lower p) req (id' c) (id' pr) (id' m)
      (Some s) (Close (last (data req))) st = (Inr (), st')"
    using recompute_succeeds [OF assms(6-11)] by blast
  then have "\<exists>resp st''. predict env clk cp p req st = (Inr resp, st'')"
    unfolding predict_def predict_body_validated [OF assms(1-4)]
    by (simp add: assms(5))
  then show ?thesis by auto
qed

lemma ex_pair: "get_currency_pair (store st9) (upper ''eurusd'') = Some eurusd_row"
  by code_simp

lemma ex_period: "get_period (store st9) (lower ''h1'') = Some h1_row"
  by code_simp

lemma ex_model: "get_prediction_model (store st9) ''LSTM'' = Some lstm_row"
  by code_simp

lemma ex_sentiment: "get_prediction_model (store st9) ''LSTM_Sentiment'' = Some sentiment_row"
  by code_simp

lemma ex_data: "data req2 \<noteq> []"
  by code_simp

lemma ex_load: "load_model_and_scaler env0 (upper ''eurusd'') (lower ''h1'') = Inr ((), ())"
  by code_simp

lemma ex_run: "predict env0 clock0 ''eurusd'' ''h1'' req2 st9 = (Inr resp2, st2)"
  unfolding resp2_def st2_def
  by (rule predict_succeeds [OF ex_pair ex_period ex_model ex_data ex_sentiment ex_load,
        where seqs = "()" and preds = "[1, 2, 3, 4, 5]" and pws = "[3/2, 5/2, 7/2, 9/2, 11/2]"])
     (simp_all add: env0_def req2_def num_of_predictions_def)

lemma micros_match_offset:
  "micros (match_date_to_period now period k)
     = micros (match_date_to_period now period 0) + k * period_us period"
proof -
  have h: "micros (plus_offset t (DateOffset_hours k))
      = micros (plus_offset t (DateOffset_hours 0)) + k * hour_us" for t
    by (simp only: micros_plus_hours; simp)
  have d: "micros (plus_offset t (DateOffset_days (k + 1)))
      = micros (plus_offset t (DateOffset_days (0 + 1))) + k * day_us" for t
    by (simp only: micros_plus_days; simp add: algebra_simps)
  show ?thesis
    by (simp add: match_date_to_period_def period_us_def h d del: plus_offset.simps)
qed

lemma rows_upsert_same_key:
  assumes "micros d' = micros d"
  shows "rows_at (upsert_prediction db c p m v a d) c p m d' = upserted_rows db c p m v a d"
  by (simp add: rows_upsert_same [OF assms] upserted_rows_def new_row_def)

lemma rows_at_cong:
  assumes "micros d' = micros d"
  shows "rows_at db c p m d' = rows_at db c p m d"
proof -
  have "at_key c p m d' = at_key c p m d"
    using assms by (simp add: at_key_def fun_eq_iff)
  then show ?thesis by (simp add: rows_at_def)
qed

lemma upserted_rows_cong:
  assumes "micros d' = micros d"
  shows "rows_at db c p m d' = rows_at db c p m d"
  using assms by (rule rows_at_cong)

lemma store_predictions_preserves_at:
  assumes step: "\<And>db mm v k. k \<in> set js \<Longrightarrow> Q db
        \<Longrightarrow> Q (upsert_prediction db c p mm v a (target clk period k))"
    and "Q db"
    and "store_predictions clk period c p m sm preds pws a js db = (Inr u, db')"
  shows "Q db'"
  using assms
proof (induction js arbitrary: db)
  case Nil
  then show ?case by simp
next
  case (Cons i rest)
  from store_predictions_Cons [OF Cons.prems(3)] obtain s :: named_row where
    run: "store_predictions clk period c p m sm preds pws a rest
       (upsert_prediction
          (upsert_prediction db c p m (preds ! i) a (target clk period i))
          c p (id' s) (pws ! i) a (target clk period i)) = (Inr u, db')"
    by auto
  have q: "Q (upsert_prediction
          (upsert_prediction db c p m (preds ! i) a (target clk period i))
          c p (id' s) (pws ! i) a (target clk period i))"
    using Cons.prems(2) by (intro Cons.prems(1)) simp_all
  show ?case
    by (rule Cons.IH [OF _ q run]) (rule Cons.prems(1), simp_all)
qed

lemma store_predictions_frame:
  assumes "store_predictions clk period c p m sm preds pws a js db = (Inr u, db')"
    and "\<forall>k\<in>set js. micros (target clk period k) \<noteq> micros d"
  shows "rows_at db' c' p' m' d = rows_at db c' p' m' d"
proof -
  have "rows_at db' c' p' m' d = rows_at db c' p' m' d"
    using _ _ assms(1)
  proof (rule store_predictions_preserves_at
      [where Q = "\<lambda>x. rows_at x c' p' m' d = rows_at db c' p' m' d"])
    show "rows_at db c' p' m' d = rows_at db c' p' m' d" ..
  next
    fix x mm v k
    assume k: "k \<in> set js" and x: "rows_at x c' p' m' d = rows_at db c' p' m' d"
    from k assms(2) have "micros d \<noteq> micros (target clk period k)"
      by auto
    then have "\<not> (c' = c \<and> p' = p \<and> m' = mm \<and> micros d = micros (target clk period k))"
      by simp
    from rows_upsert_other [OF this] x
    show "rows_at (upsert_prediction x c p mm v a (target clk period k)) c' p' m' d
        = rows_at db c' p' m' d"
      by simp
  qed
  then show ?thesis .
qed

lemma store_predictions_frame_triple:
  assumes "store_predictions clk period c p m (Some s) preds pws a js db = (Inr u, db')"
    and "\<not> (c' = c \<and> p' = p \<and> (m' = m \<or> m' = id' s))"
  shows "rows_at db' c' p' m' d = rows_at db c' p' m' d"
  using assms
proof (induction js arbitrary: db)
  case Nil
  then show ?case by simp
next
  case (Cons i rest)
  from store_predictions_Cons [OF Cons.prems(1)]
  have run: "store_predictions clk period c p m (Some s) preds pws a rest
       (upsert_prediction
          (upsert_prediction db c p m (preds ! i) a (target clk period i))
          c p (id' s) (pws ! i) a (target clk period i)) = (Inr u, db')"
    by simp
  have n1: "\<not> (c' = c \<and> p' = p \<and> m' = m \<and> micros d = micros (target clk period i))"
    using Cons.prems(2) by blast
  have n2: "\<not> (c' = c \<and> p' = p \<and> m' = id' s \<and> micros d = micros (target clk period i))"
    using Cons.prems(2) by blast
  show ?case
    unfolding Cons.IH [OF run Cons.prems(2)] rows_upsert_other [OF n2] rows_upsert_other [OF n1]
    ..
qed

lemma store_predictions_rows:
  assumes "store_predictions clk period c p m (Some s) preds pws a js db = (Inr u, db')"
    and "distinct (map (\<lambda>k. micros (target clk period k)) js)"
    and "m \<noteq> id' s"
    and "i \<in> set js"
  shows "rows_at db' c p m (target clk period i)
        = upserted_rows db c p m (preds ! i) a (target clk period i)
     \<and> rows_at db' c p (id' s) (target clk period i)
        = upserted_rows db c p (id' s) (pws ! i) a (target clk period i)"
  using assms(1,2,4)
proof (induction js arbitrary: db)
  case Nil
  then show ?case by simp
next
  case (Cons j rest)
  let ?db1 = "upsert_prediction db c p m (preds ! j) a (target clk period j)"
  let ?db2 = "upsert_prediction ?db1 c p (id' s) (pws ! j) a (target clk period j)"
  from store_predictions_Cons [OF Cons.prems(1)]
  have run: "store_predictions clk period c p m (Some s) preds pws a rest ?db2 = (Inr u, db')"
    by simp
  from Cons.prems(2) have dist: "distinct (map (\<lambda>k. micros (target clk period k)) rest)"
    and notin: "micros (target clk period j) \<notin> (\<lambda>k. micros (target clk period k)) ` set rest"
    by simp_all
  have fresh: "\<forall>k\<in>set rest. micros (target clk period k) \<noteq> micros (target clk period j)"
  proof
    fix k
    assume "k \<in> set rest"
    then have "micros (target clk period k) \<in> (\<lambda>k. micros (target clk period k)) ` set rest"
      by (rule imageI)
    with notin show "micros (target clk period k) \<noteq> micros (target clk period j)"
      by auto
  qed
  show ?case
  proof (cases "i \<in> set rest")
    case True
    then have ne: "micros (target clk period i) \<noteq> micros (target clk period j)"
      using fresh by blast
    have "rows_at ?db2 c p mm (target clk period i) = rows_at db c p mm (target clk period i)"
      for mm
      using ne by (simp add: rows_upsert_other)
    then have "upserted_rows ?db2 c p mm v a (target clk period i)
        = upserted_rows db c p mm v a (target clk period i)" for mm v
      by (simp add: upserted_rows_def)
    with Cons.IH [OF run dist True] show ?thesis by simp
  next
    case False
    with Cons.prems(3) have ij: "i = j" by simp
    have f: "rows_at db' c p mm (target clk period j) = rows_at ?db2 c p mm (target clk period j)"
      for mm
      using run fresh by (rule store_predictions_frame)
    have r1: "rows_at ?db2 c p m (target clk period j)
        = upserted_rows db c p m (preds ! j) a (target clk period j)"
      using assms(3) by (simp add: rows_upsert_other rows_upsert_same_key)
    have r2: "rows_at ?db2 c p (id' s) (target clk period j)
        = upserted_rows db c p (id' s) (pws ! j) a (target clk period j)"
      using assms(3)
      by (simp add: rows_upsert_other rows_upsert_same_key upserted_rows_def)
    show ?thesis
      unfolding ij f r1 r2 by simp
  qed
qed

lemma targets_in_bucket:
  assumes "micros (match_date_to_period (clk (Suc i)) period 0) = b"
  shows "micros (target clk period i) = b + int i * period_us period"
  using assms micros_match_offset [of "clk (Suc i)" period "int i"]
  by (simp add: target_def)

lemma targets_distinct:
  assumes "\<forall>j<n. micros (match_date_to_period (clk (Suc j)) period 0) = b"
    and "0 < period_us period"
  shows "distinct (map (\<lambda>k. micros (target clk period k)) [0..<n])"
proof -
  have eq: "map (\<lambda>k. micros (target clk period k)) [0..<n]
      = map (\<lambda>k. b + int k * period_us period) [0..<n]"
    using assms(1) by (simp add: targets_in_bucket)
  have "inj_on (\<lambda>k. b + int k * period_us period) (set [0..<n])"
    using assms(2) by (auto simp add: inj_on_def)
  then show ?thesis
    unfolding eq by (simp add: distinct_map)
qed

lemma store_predictions_bounds:
  assumes "store_predictions clk period c p m sm preds pws a js db = (Inr u, db')"
  shows "\<forall>i\<in>set js. i < length preds \<and> i < length pws"
  using assms
proof (induction js arbitrary: db)
  case Nil
  then show ?case by simp
next
  case (Cons j rest)
  from store_predictions_Cons [OF Cons.prems] obtain s :: named_row where
    b: "j < length preds" "j < length pws"
    and run: "store_predictions clk period c p m sm preds pws a rest
       (upsert_prediction
          (upsert_prediction db c p m (preds ! j) a (target clk period j))
          c p (id' s) (pws ! j) a (target clk period j)) = (Inr u, db')"
    by auto
  from Cons.IH [OF run] b show ?case by simp
qed

lemma predict_recompute_effect:
  assumes "get_currency_pair (store st) (upper cp) = Some c"
    and "get_period (store st) (lower p) = Some pr"
    and "get_prediction_model (store st) ''LSTM'' = Some m"
    and "data req \<noteq> []"
    and "\<not> cache_fresh (store st) (id' c) (id' pr) (id' m)
           (match_date_to_period (clk 0) (lower p) 0) (Close (last (data req)))"
    and "get_prediction_model (store st) ''LSTM_Sentiment'' = Some s"
    and "load_model_and_scaler env (upper cp) (lower p) = Inr (model, scaler)"
    and "build_sequences env (data req) scaler = Inr seqs"
    and "get_multiple_predictions env seqs model scaler None = Inr preds"
    and "(case sentimentScore req of None \<Rightarrow> Inr preds
        | Some x \<Rightarrow> get_multiple_predictions env seqs model scaler (Some x)) = Inr pws"
    and "predict env clk cp p req st = (Inr resp, st')"
  shows "calls st' = calls st @ [Load_model (upper cp) (lower p), Rollout None] @
        (case sentimentScore req of None \<Rightarrow> [] | Some x \<Rightarrow> [Rollout (Some x)])"
    and "store_predictions clk (lower p) (id' c) (id' pr) (id' m) (Some s) preds pws
        (Close (last (data req))) [0..<num_of_predictions] (store st) = (Inr (), store st')"
    and "resp = \<lparr>LSTM_predictions = map (\<lambda>r. (pred_value r, date r))
                  (get_all_predictions (store st') (id' c) (id' pr) (id' m)),
                LSTM_sentiment_predictions = map (\<lambda>r. (pred_value r, date r))
                  (get_all_predictions (store st') (id' c) (id' pr) (id' s))\<rparr>"
proof -
  from predict_recomputed [OF assms(1-5) assms(11)] obtain s' :: named_row where
    s': "get_prediction_model (store st) ''LSTM_Sentiment'' = Some s'"
    and r': "recompute env clk (upper cp) (lower p) req (id' c) (id' pr) (id' m) (Some s')
        (Close (last (data req))) st = (Inr (), st')"
    and resp': "resp = \<lparr>LSTM_predictions =
                series (get_all_predictions (store st') (id' c) (id' pr) (id' m)),
              LSTM_sentiment_predictions =
                series (get_all_predictions (store st') (id' c) (id' pr) (id' s'))\<rparr>"
    by blast
  from s' assms(6) have ss: "s' = s" by simp
  from resp' ss show "resp = \<lparr>LSTM_predictions = map (\<lambda>r. (pred_value r, date r))
                  (get_all_predictions (store st') (id' c) (id' pr) (id' m)),
                LSTM_sentiment_predictions = map (\<lambda>r. (pred_value r, date r))
                  (get_all_predictions (store st') (id' c) (id' pr) (id' s))\<rparr>"
    by (simp add: series_def)
  from r' ss have r: "recompute env clk (upper cp) (lower p) req (id' c) (id' pr) (id' m)
        (Some s) (Close (last (data req))) st = (Inr (), st')"
    by simp
  from recompute_success [OF r] obtain model' scaler' seqs' preds' pws' where
    l: "load_model_and_scaler env (upper cp) (lower p) = Inr (model', scaler')"
    and b: "build_sequences env (data req) scaler' = Inr seqs'"
    and g: "get_multiple_predictions env seqs' model' scaler' None = Inr preds'"
    and h: "(case sentimentScore req of None \<Rightarrow> Inr preds'
        | Some x \<Rightarrow> get_multiple_predictions env seqs' model' scaler' (Some x)) = Inr pws'"
    and run': "store_predictions clk (lower p) (id' c) (id' pr) (id' m) (Some s) preds' pws'
        (Close (last (data req))) [0..<num_of_predictions] (store st) = (Inr (), store st')"
    and c': "calls st' = calls st @ [Load_model (upper cp) (lower p), Rollout None] @
        (case sentimentScore req of None \<Rightarrow> [] | Some x \<Rightarrow> [Rollout (Some x)])"
    by blast
  from c' show "calls st' = calls st @ [Load_model (upper cp) (lower p), Rollout None] @
        (case sentimentScore req of None \<Rightarrow> [] | Some x \<Rightarrow> [Rollout (Some x)])" .
  from l assms(7) have m1: "model' = model" and m2: "scaler' = scaler" by simp_all
  from b [unfolded m2] assms(8) have m3: "seqs' = seqs" by simp
  from g [unfolded m1 m2 m3] assms(9) have m4: "preds' = preds" by simp
  from h [unfolded m1 m2 m3 m4] assms(10) have m5: "pws' = pws" by simp
  from run' [unfolded m4 m5]
  show "store_predictions clk (lower p) (id' c) (id' pr) (id' m) (Some s) preds pws
        (Close (last (data req))) [0..<num_of_predictions] (store st) = (Inr (), store st')" .
qed

lemma recompute_effect_rows:
  assumes run: "store_predictions clk period c p m (Some s) preds pws a
        [0..<num_of_predictions] db = (Inr (), db')"
  shows "(\<forall>i<num_of_predictions. i < length preds \<and> i < length pws
          \<and> anchored db' c p m (target clk period i) a
          \<and> anchored db' c p (id' s) (target clk period i) a)
    \<and> (distinct (map (\<lambda>k. micros (target clk period k)) [0..<num_of_predictions])
          \<and> m \<noteq> id' s \<longrightarrow>
        (\<forall>i<num_of_predictions.
           rows_at db' c p m (target clk period i)
             = upserted_rows db c p m (preds ! i) a (target clk period i)
         \<and> rows_at db' c p (id' s) (target clk period i)
             = upserted_rows db c p (id' s) (pws ! i) a (target clk period i)))"
proof (intro conjI allI impI)
  fix i assume i: "i < num_of_predictions"
  then have mem: "i \<in> set [0..<num_of_predictions]" by simp
  from store_predictions_bounds [OF run] mem
  show "i < length preds" and "i < length pws" by blast+
  from store_predictions_anchored [OF run mem]
  show "anchored db' c p m (target clk period i) a"
    and "anchored db' c p (id' s) (target clk period i) a" by blast+
next
  fix i
  assume d: "distinct (map (\<lambda>k. micros (target clk period k)) [0..<num_of_predictions])
          \<and> m \<noteq> id' s"
    and i: "i < num_of_predictions"
  then have mem: "i \<in> set [0..<num_of_predictions]" by simp
  from d have d1: "distinct (map (\<lambda>k. micros (target clk period k)) [0..<num_of_predictions])"
    and d2: "m \<noteq> id' s" by blast+
  from store_predictions_rows [OF run d1 d2 mem]
  show "rows_at db' c p m (target clk period i)
             = upserted_rows db c p m (preds ! i) a (target clk period i)"
    and "rows_at db' c p (id' s) (target clk period i)
             = upserted_rows db c p (id' s) (pws ! i) a (target clk period i)" by blast+
qed

text \<open>
  C5. Staleness. When storage knows the pair, the period and both models, the first
  cached plain prediction carries an anchor different from the last Close of the request,
  and \<^verbatim>\<open>predict\<close> returns a response, then it has recomputed: the log of inference
  calls has grown by the call of the model supplier, the plain rollout and (with a sentiment
  score) the sentiment rollout. At each of the 5 target timestamps, for both model variants,
  a prediction is stored and carries the new anchor. When the 5 target timestamps are
  pairwise distinct and the two models have distinct ids, the predictions stored at target
  \<open>i\<close> are exactly the upsert of the \<open>i\<close>-th rollout value and the new anchor: the
  predictions stored there before with value and anchor overwritten, or one new prediction
  when there was none.
\<close>

theorem stale_anchor_forces_upsert:
  assumes "get_currency_pair (store st) (upper cp) = Some c"
    and "get_period (store st) (lower p) = Some pr"
    and "get_prediction_model (store st) ''LSTM'' = Some m"
    and "data req \<noteq> []"
    and "get_n_future_predictions (store st) (id' c) (id' pr) (id' m)
           (match_date_to_period (clk 0) (lower p) 0) num_of_predictions \<noteq> []"
    and "last_live_value (hd (get_n_future_predictions (store st) (id' c) (id' pr) (id' m)
           (match_date_to_period (clk 0) (lower p) 0) num_of_predictions))
         \<noteq> Close (last (data req))"
    and "get_prediction_model (store st) ''LSTM_Sentiment'' = Some s"
    and "load_model_and_scaler env (upper cp) (lower p) = Inr (model, scaler)"
    and "build_sequences env (data req) scaler = Inr seqs"
    and "get_multiple_predictions env seqs model scaler None = Inr preds"
    and "(case sentimentScore req of None \<Rightarrow> Inr preds
        | Some x \<Rightarrow> get_multiple_predictions env seqs model scaler (Some x)) = Inr pws"
    and "predict env clk cp p req st = (Inr resp, st')"
  shows "calls st' = calls st @ [Load_model (upper cp) (lower p), Rollout None] @
        (case sentimentScore req of None \<Rightarrow> [] | Some x \<Rightarrow> [Rollout (Some x)])
    \<and> (\<forall>i<num_of_predictions. i < length preds \<and> i < length pws
          \<and> anchored (store st') (id' c) (id' pr) (id' m) (target clk (lower p) i)
              (Close (last (data req)))
          \<and> anchored (store st') (id' c) (id' pr) (id' s) (target clk (lower p) i)
              (Close (last (data req))))
    \<and> (distinct (map (\<lambda>k. micros (target clk (lower p) k)) [0..<num_of_predictions])
          \<and> id' m \<noteq> id' s \<longrightarrow>
        (\<forall>i<num_of_predictions.
           rows_at (store st') (id' c) (id' pr) (id' m) (target clk (lower p) i)
             = upserted_rows (store st) (id' c) (id' pr) (id' m) (preds ! i)
                 (Close (last (data req))) (target clk (lower p) i)
         \<and> rows_at (store st') (id' c) (id' pr) (id' s) (target clk (lower p) i)
             = upserted_rows (store st) (id' c) (id' pr) (id' s) (pws ! i)
                 (Close (last (data req))) (target clk (lower p) i)))"
proof -
  have "\<not> serve_cached (get_n_future_predictions (store st) (id' c) (id' pr) (id' m)
           (match_date_to_period (clk 0) (lower p) 0) num_of_predictions)
           (Close (last (data req)))"
    using assms(6) by (simp add: serve_cached_def)
  then have nf: "\<not> cache_fresh (store st) (id' c) (id' pr) (id' m)
           (match_date_to_period (clk 0) (lower p) 0) (Close (last (data req)))"
    by (simp add: serve_cached_iff_fresh)
  note eff = predict_recompute_effect [OF assms(1-4) nf assms(7-12)]
  from eff(1) recompute_effect_rows [OF eff(2)] show ?thesis
    by (intro conjI) blast+
qed

text \<open>
  C1. For a request that passes validation, \<^verbatim>\<open>predict\<close> makes no inference call if
  and only if storage holds at least 5 predictions of the (pair, period, plain model)
  triple from the aligned timestamp on and the earliest of them carries an anchor equal to
  the last Close of the request. Then the response is the stored series of both models
  (value and timestamp of every stored prediction of the triple) and the state is left as
  it was. Otherwise the recompute path runs: the model supplier is called first, and when
  the request returns a response, the log has grown by the supplier call, the plain rollout
  and (with a sentiment score) the sentiment rollout, the response is the series stored
  after the upserts, both model variants carry the new anchor at each of the 5 target
  timestamps, and (targets pairwise distinct, model ids distinct) the predictions stored at
  target \<open>i\<close> are the upsert of the \<open>i\<close>-th value of the variant's rollout.
\<close>

theorem cache_served_iff_fresh:
  assumes "get_currency_pair (store st) (upper cp) = Some c"
    and "get_period (store st) (lower p) = Some pr"
    and "get_prediction_model (store st) ''LSTM'' = Some m"
    and "data req \<noteq> []"
    and "get_prediction_model (store st) ''LSTM_Sentiment'' = Some s"
  shows "(calls (snd (predict env clk cp p req st)) = calls st
          \<longleftrightarrow> cache_fresh (store st) (id' c) (id' pr) (id' m)
                (match_date_to_period (clk 0) (lower p) 0) (Close (last (data req))))
    \<and> (cache_fresh (store st) (id' c) (id' pr) (id' m)
          (match_date_to_period (clk 0) (lower p) 0) (Close (last (data req)))
        \<longrightarrow> predict env clk cp p req st =
            (Inr \<lparr>LSTM_predictions = map (\<lambda>r. (pred_value r, date r))
                    (get_all_predictions (store st) (id' c) (id' pr) (id' m)),
                  LSTM_sentiment_predictions = map (\<lambda>r. (pred_value r, date r))
                    (get_all_predictions (store st) (id' c) (id' pr) (id' s))\<rparr>, st))
    \<and> (\<not> cache_fresh (store st) (id' c) (id' pr) (id' m)
          (match_date_to_period (clk 0) (lower p) 0) (Close (last (data req)))
        \<longrightarrow> (\<exists>rest. calls (snd (predict env clk cp p req st))
                = calls st @ Load_model (upper cp) (lower p) # rest))
    \<and> (\<not> cache_fresh (store st) (id' c) (id' pr) (id' m)
          (match_date_to_period (clk 0) (lower p) 0) (Close (last (data req)))
        \<and> load_model_and_scaler env (upper cp) (lower p) = Inr (model, scaler)
        \<and> build_sequences env (data req) scaler = Inr seqs
        \<and> get_multiple_predictions env seqs model scaler None = Inr preds
        \<and> (case sentimentScore req of None \<Rightarrow> Inr preds
            | Some x \<Rightarrow> get_multiple_predictions env seqs model scaler (Some x)) = Inr pws
        \<and> predict env clk cp p req st = (Inr resp, st')
        \<longrightarrow> calls st' = calls st @ [Load_model (upper cp) (lower p), Rollout None] @
              (case sentimentScore req of None \<Rightarrow> [] | Some x \<Rightarrow> [Rollout (Some x)])
          \<and> resp = \<lparr>LSTM_predictions = map (\<lambda>r. (pred_value r, date r))
                      (get_all_predictions (store st') (id' c) (id' pr) (id' m)),
                    LSTM_sentiment_predictions = map (\<lambda>r. (pred_value r, date r))
                      (get_all_predictions (store st') (id' c) (id' pr) (id' s))\<rparr>
          \<and> (\<forall>i<num_of_predictions. i < length preds \<and> i < length pws
                \<and> anchored (store st') (id' c) (id' pr) (id' m) (target clk (lower p) i)
                    (Close (last (data req)))
                \<and> anchored (store st') (id' c) (id' pr) (id' s) (target clk (lower p) i)
                    (Close (last (data req))))
          \<and> (distinct (map (\<lambda>k. micros (target clk (lower p) k)) [0..<num_of_predictions])
                \<and> id' m \<noteq> id' s \<longrightarrow>
              (\<forall>i<num_of_predictions.
                 rows_at (store st') (id' c) (id' pr) (id' m) (target clk (lower p) i)
                   = upserted_rows (store st) (id' c) (id' pr) (id' m) (preds ! i)
                       (Close (last (data req))) (target clk (lower p) i)
               \<and> rows_at (store st') (id' c) (id' pr) (id' s) (target clk (lower p) i)
                   = upserted_rows (store st) (id' c) (id' pr) (id' s) (pws ! i)
                       (Close (last (data req))) (target clk (lower p) i))))"
proof (cases "cache_fresh (store st) (id' c) (id' pr) (id' m)
          (match_date_to_period (clk 0) (lower p) 0) (Close (last (data req)))")
  case True
  have served: "predict env clk cp p req st =
            (Inr \<lparr>LSTM_predictions = map (\<lambda>r. (pred_value r, date r))
                    (get_all_predictions (store st) (id' c) (id' pr) (id' m)),
                  LSTM_sentiment_predictions = map (\<lambda>r. (pred_value r, date r))
                    (get_all_predictions (store st) (id' c) (id' pr) (id' s))\<rparr>, st)"
    unfolding predict_cached [where clk = clk and env = env, OF assms(1-4) True]
    by (simp add: assms(5) series_def)
  then have "calls (snd (predict env clk cp p req st)) = calls st"
    by simp
  with True served show ?thesis by simp
next
  case False
  from predict_not_fresh_calls [where clk = clk and env = env, OF assms(1-4) False]
  obtain rest where
    c: "calls (snd (predict env clk cp p req st))
        = calls st @ Load_model (upper cp) (lower p) # rest"
    by blast
  then have ne: "calls (snd (predict env clk cp p req st)) \<noteq> calls st"
    by simp
  have eff: "calls st' = calls st @ [Load_model (upper cp) (lower p), Rollout None] @
              (case sentimentScore req of None \<Rightarrow> [] | Some x \<Rightarrow> [Rollout (Some x)])
          \<and> resp = \<lparr>LSTM_predictions = map (\<lambda>r. (pred_value r, date r))
                      (get_all_predictions (store st') (id' c) (id' pr) (id' m)),
                    LSTM_sentiment_predictions = map (\<lambda>r. (pred_value r, date r))
                      (get_all_predictions (store st') (id' c) (id' pr) (id' s))\<rparr>
          \<and> (\<forall>i<num_of_predictions. i < length preds \<and> i < length pws
                \<and> anchored (store st') (id' c) (id' pr) (id' m) (target clk (lower p) i)
                    (Close (last (data req)))
                \<and> anchored (store st') (id' c) (id' pr) (id' s) (target clk (lower p) i)
                    (Close (last (data req))))
          \<and> (distinct (map (\<lambda>k. micros (target clk (lower p) k)) [0..<num_of_predictions])
                \<and> id' m \<noteq> id' s \<longrightarrow>
              (\<forall>i<num_of_predictions.
                 rows_at (store st') (id' c) (id' pr) (id' m) (target clk (lower p) i)
                   = upserted_rows (store st) (id' c) (id' pr) (id' m) (preds ! i)
                       (Close (last (data req))) (target clk (lower p) i)
               \<and> rows_at (store st') (id' c) (id' pr) (id' s) (target clk (lower p) i)
                   = upserted_rows (store st) (id' c) (id' pr) (id' s) (pws ! i)
                       (Close (last (data req))) (target clk (lower p) i)))"
    if l: "load_model_and_scaler env (upper cp) (lower p) = Inr (model, scaler)"
      and b: "build_sequences env (data req) scaler = Inr seqs"
      and g: "get_multiple_predictions env seqs model scaler None = Inr preds"
      and h: "(case sentimentScore req of None \<Rightarrow> Inr preds
            | Some x \<Rightarrow> get_multiple_predictions env seqs model scaler (Some x)) = Inr pws"
      and ok: "predict env clk cp p req st = (Inr resp, st')"
  proof -
    note e = predict_recompute_effect [OF assms(1-4) False assms(5) l b g h ok]
    from e(1) e(3) recompute_effect_rows [OF e(2)] show ?thesis
      by (intro conjI) blast+
  qed
  from False c ne eff show ?thesis
    by (intro conjI impI iffI) (blast+)
qed

lemma ex_build: "build_sequences env0 (data req2) () = Inr ()"
  by (simp add: env0_def)

lemma ex_rollout: "get_multiple_predictions env0 () () () None = Inr [1, 2, 3, 4, 5]"
  by (simp add: env0_def)

lemma ex_rollout_sentiment:
  "(case sentimentScore req2 of None \<Rightarrow> Inr [1, 2, 3, 4, 5]
    | Some x \<Rightarrow> get_multiple_predictions env0 () () () (Some x))
   = Inr [3/2, 5/2, 7/2, 9/2, 11/2]"
  by (simp add: env0_def req2_def)

lemma ex_lower: "lower ''h1'' = ''h1''"
  by code_simp

lemma ex_distinct:
  "distinct (map (\<lambda>k. micros (target clock0 (lower ''h1'') k)) [0..<num_of_predictions])"
proof (rule targets_distinct)
  show "\<forall>j<num_of_predictions.
      micros (match_date_to_period (clock0 (Suc j)) (lower ''h1'') 0) = micros (t0 10)"
    by (simp add: ex_lower clock0_def now0_def t0_def match_date_to_period_def micros_def)
  show "0 < period_us (lower ''h1'')"
    by (simp add: ex_lower period_us_def hour_us_def)
qed

lemma ex_ids: "id' lstm_row \<noteq> id' sentiment_row"
  by (simp add: lstm_row_def sentiment_row_def)

lemma ex_stale:
  "get_n_future_predictions (store st9) (id' eurusd_row) (id' h1_row) (id' lstm_row)
      (match_date_to_period (clock0 0) (lower ''h1'') 0) num_of_predictions \<noteq> []
   \<and> last_live_value (hd (get_n_future_predictions (store st9) (id' eurusd_row) (id' h1_row)
        (id' lstm_row) (match_date_to_period (clock0 0) (lower ''h1'') 0) num_of_predictions))
       \<noteq> Close (last (data req2))"
  by code_simp

lemma ex_not_fresh:
  "\<not> cache_fresh (store st9) (id' eurusd_row) (id' h1_row) (id' lstm_row)
          (match_date_to_period (clock0 0) (lower ''h1'') 0) (Close (last (data req2)))"
  by code_simp

lemma ex_fresh:
  "cache_fresh (store st9) (id' eurusd_row) (id' h1_row) (id' lstm_row)
          (match_date_to_period (clock0 0) (lower ''h1'') 0) (Close (last (data req0)))"
  by code_simp

theorem stale_anchor_forces_upsert_witness:
  "get_n_future_predictions (store st9) (id' eurusd_row) (id' h1_row) (id' lstm_row)
      (match_date_to_period (clock0 0) (lower ''h1'') 0) num_of_predictions \<noteq> []
   \<and> last_live_value (hd (get_n_future_predictions (store st9) (id' eurusd_row) (id' h1_row)
        (id' lstm_row) (match_date_to_period (clock0 0) (lower ''h1'') 0) num_of_predictions))
       \<noteq> Close (last (data req2))
   \<and> predict env0 clock0 ''eurusd'' ''h1'' req2 st9 = (Inr resp2, st2)
   \<and> distinct (map (\<lambda>k. micros (target clock0 (lower ''h1'') k)) [0..<num_of_predictions])
   \<and> id' lstm_row \<noteq> id' sentiment_row
   \<and> calls st2 = calls st9 @ [Load_model (upper ''eurusd'') (lower ''h1''), Rollout None] @
        (case sentimentScore req2 of None \<Rightarrow> [] | Some x \<Rightarrow> [Rollout (Some x)])
   \<and> anchored (store st2) (id' eurusd_row) (id' h1_row) (id' lstm_row)
           (target clock0 (lower ''h1'') 0) (Close (last (data req2)))
       \<and> anchored (store st2) (id' eurusd_row) (id' h1_row) (id' sentiment_row)
           (target clock0 (lower ''h1'') 0) (Close (last (data req2)))
   \<and> anchored (store st2) (id' eurusd_row) (id' h1_row) (id' lstm_row)
           (target clock0 (lower ''h1'') 4) (Close (last (data req2)))
       \<and> anchored (store st2) (id' eurusd_row) (id' h1_row) (id' sentiment_row)
           (target clock0 (lower ''h1'') 4) (Close (last (data req2)))
   \<and> rows_at (store st2) (id' eurusd_row) (id' h1_row) (id' lstm_row)
             (target clock0 (lower ''h1'') 0)
           = upserted_rows (store st9) (id' eurusd_row) (id' h1_row) (id' lstm_row)
               ([1, 2, 3, 4, 5] ! 0) (Close (last (data req2)))
               (target clock0 (lower ''h1'') 0)
       \<and> rows_at (store st2) (id' eurusd_row) (id' h1_row) (id' sentiment_row)
             (target clock0 (lower ''h1'') 0)
           = upserted_rows (store st9) (id' eurusd_row) (id' h1_row) (id' sentiment_row)
               ([3/2, 5/2, 7/2, 9/2, 11/2] ! 0) (Close (last (data req2)))
               (target clock0 (lower ''h1'') 0)
   \<and> rows_at (store st2) (id' eurusd_row) (id' h1_row) (id' lstm_row)
             (target clock0 (lower ''h1'') 4)
           = upserted_rows (store st9) (id' eurusd_row) (id' h1_row) (id' lstm_row)
               ([1, 2, 3, 4, 5] ! 4) (Close (last (data req2)))
               (target clock0 (lower ''h1'') 4)
       \<and> rows_at (store st2) (id' eurusd_row) (id' h1_row) (id' sentiment_row)
             (target clock0 (lower ''h1'') 4)
           = upserted_rows (store st9) (id' eurusd_row) (id' h1_row) (id' sentiment_row)
               ([3/2, 5/2, 7/2, 9/2, 11/2] ! 4) (Close (last (data req2)))
               (target clock0 (lower ''h1'') 4)"
proof -
  note e = ex_stale [THEN conjunct1] and f = ex_stale [THEN conjunct2]
  note T = stale_anchor_forces_upsert [where clk = clock0 and env = env0,
      OF ex_pair ex_period ex_model ex_data e f ex_sentiment ex_load ex_build ex_rollout
        ex_rollout_sentiment ex_run]
  from T have c: "calls st2 = calls st9 @ [Load_model (upper ''eurusd'') (lower ''h1''),
        Rollout None] @ (case sentimentScore req2 of None \<Rightarrow> [] | Some x \<Rightarrow> [Rollout (Some x)])"
    by (rule conjunct1)
  from T [THEN conjunct2, THEN conjunct1]
  have a: "\<forall>i<num_of_predictions.
         anchored (store st2) (id' eurusd_row) (id' h1_row) (id' lstm_row)
           (target clock0 (lower ''h1'') i) (Close (last (data req2)))
       \<and> anchored (store st2) (id' eurusd_row) (id' h1_row) (id' sentiment_row)
           (target clock0 (lower ''h1'') i) (Close (last (data req2)))"
    by blast
  from T [THEN conjunct2, THEN conjunct2, THEN mp, OF conjI, OF ex_distinct ex_ids]
  have r: "\<forall>i<num_of_predictions.
         rows_at (store st2) (id' eurusd_row) (id' h1_row) (id' lstm_row)
             (target clock0 (lower ''h1'') i)
           = upserted_rows (store st9) (id' eurusd_row) (id' h1_row) (id' lstm_row)
               ([1, 2, 3, 4, 5] ! i) (Close (last (data req2)))
               (target clock0 (lower ''h1'') i)
       \<and> rows_at (store st2) (id' eurusd_row) (id' h1_row) (id' sentiment_row)
             (target clock0 (lower ''h1'') i)
           = upserted_rows (store st9) (id' eurusd_row) (id' h1_row) (id' sentiment_row)
               ([3/2, 5/2, 7/2, 9/2, 11/2] ! i) (Close (last (data req2)))
               (target clock0 (lower ''h1'') i)" .
  have n0: "0 < num_of_predictions" and n4: "4 < num_of_predictions"
    by (simp_all add: num_of_predictions_def)
  note r0 = r [rule_format, OF n0] and r4 = r [rule_format, OF n4]
  note a0 = a [rule_format, OF n0] and a4 = a [rule_format, OF n4]
  from e f ex_run ex_distinct ex_ids c a0 a4 r0 r4 show ?thesis
    by blast
qed

theorem cache_served_iff_fresh_witness:
  "\<not> cache_fresh (store st9) (id' eurusd_row) (id' h1_row) (id' lstm_row)
          (match_date_to_period (clock0 0) (lower ''h1'') 0) (Close (last (data req2)))
   \<and> cache_fresh (store st9) (id' eurusd_row) (id' h1_row) (id' lstm_row)
          (match_date_to_period (clock0 0) (lower ''h1'') 0) (Close (last (data req0)))
   \<and> predict env0 clock0 ''eurusd'' ''h1'' req0 st9 =
       (Inr \<lparr>LSTM_predictions = map (\<lambda>r. (pred_value r, date r))
               (get_all_predictions (store st9) (id' eurusd_row) (id' h1_row) (id' lstm_row)),
             LSTM_sentiment_predictions = map (\<lambda>r. (pred_value r, date r))
               (get_all_predictions (store st9) (id' eurusd_row) (id' h1_row)
                  (id' sentiment_row))\<rparr>, st9)
   \<and> calls (snd (predict env0 clock0 ''eurusd'' ''h1'' req0 st9)) = calls st9
   \<and> predict env0 clock0 ''eurusd'' ''h1'' req2 st9 = (Inr resp2, st2)
   \<and> distinct (map (\<lambda>k. micros (target clock0 (lower ''h1'') k)) [0..<num_of_predictions])
   \<and> id' lstm_row \<noteq> id' sentiment_row
   \<and> calls st2 = calls st9 @ [Load_model (upper ''eurusd'') (lower ''h1''), Rollout None] @
        (case sentimentScore req2 of None \<Rightarrow> [] | Some x \<Rightarrow> [Rollout (Some x)])
   \<and> resp2 = \<lparr>LSTM_predictions = map (\<lambda>r. (pred_value r, date r))
                 (get_all_predictions (store st2) (id' eurusd_row) (id' h1_row) (id' lstm_row)),
               LSTM_sentiment_predictions = map (\<lambda>r. (pred_value r, date r))
                 (get_all_predictions (store st2) (id' eurusd_row) (id' h1_row)
                    (id' sentiment_row))\<rparr>
   \<and> rows_at (store st2) (id' eurusd_row) (id' h1_row) (id' lstm_row)
             (target clock0 (lower ''h1'') 0)
           = upserted_rows (store st9) (id' eurusd_row) (id' h1_row) (id' lstm_row)
               ([1, 2, 3, 4, 5] ! 0) (Close (last (data req2)))
               (target clock0 (lower ''h1'') 0)
       \<and> rows_at (store st2) (id' eurusd_row) (id' h1_row) (id' sentiment_row)
             (target clock0 (lower ''h1'') 0)
           = upserted_rows (store st9) (id' eurusd_row) (id' h1_row) (id' sentiment_row)
               ([3/2, 5/2, 7/2, 9/2, 11/2] ! 0) (Close (last (data req2)))
               (target clock0 (lower ''h1'') 0)
   \<and> rows_at (store st2) (id' eurusd_row) (id' h1_row) (id' lstm_row)
             (target clock0 (lower ''h1'') 4)
           = upserted_rows (store st9) (id' eurusd_row) (id' h1_row) (id' lstm_row)
               ([1, 2, 3, 4, 5] ! 4) (Close (last (data req2)))
               (target clock0 (lower ''h1'') 4)
       \<and> rows_at (store st2) (id' eurusd_row) (id' h1_row) (id' sentiment_row)
             (target clock0 (lower ''h1'') 4)
           = upserted_rows (store st9) (id' eurusd_row) (id' h1_row) (id' sentiment_row)
               ([3/2, 5/2, 7/2, 9/2, 11/2] ! 4) (Close (last (data req2)))
               (target clock0 (lower ''h1'') 4)"
proof -
  have d0: "data req0 \<noteq> []"
    by (simp add: req0_def)
  note F = cache_served_iff_fresh [where clk = clock0 and env = env0 and req = req0,
      OF ex_pair ex_period ex_model d0 ex_sentiment]
  from F [THEN conjunct2, THEN conjunct1, THEN mp, OF ex_fresh]
  have served: "predict env0 clock0 ''eurusd'' ''h1'' req0 st9 =
       (Inr \<lparr>LSTM_predictions = map (\<lambda>r. (pred_value r, date r))
               (get_all_predictions (store st9) (id' eurusd_row) (id' h1_row) (id' lstm_row)),
             LSTM_sentiment_predictions = map (\<lambda>r. (pred_value r, date r))
               (get_all_predictions (store st9) (id' eurusd_row) (id' h1_row)
                  (id' sentiment_row))\<rparr>, st9)" .
  from F [THEN conjunct1] ex_fresh
  have quiet: "calls (snd (predict env0 clock0 ''eurusd'' ''h1'' req0 st9)) = calls st9"
    by blast
  note N = cache_served_iff_fresh [where clk = clock0 and env = env0 and req = req2
      and model = "()" and scaler = "()" and seqs = "()" and preds = "[1, 2, 3, 4, 5]"
      and pws = "[3/2, 5/2, 7/2, 9/2, 11/2]" and resp = resp2 and st' = st2,
      OF ex_pair ex_period ex_model ex_data ex_sentiment]
  from ex_not_fresh ex_load ex_build ex_rollout ex_rollout_sentiment ex_run
  have pre: "\<not> cache_fresh (store st9) (id' eurusd_row) (id' h1_row) (id' lstm_row)
          (match_date_to_period (clock0 0) (lower ''h1'') 0) (Close (last (data req2)))
        \<and> load_model_and_scaler env0 (upper ''eurusd'') (lower ''h1'') = Inr ((), ())
        \<and> build_sequences env0 (data req2) () = Inr ()
        \<and> get_multiple_predictions env0 () () () None = Inr [1, 2, 3, 4, 5]
        \<and> (case sentimentScore req2 of None \<Rightarrow> Inr [1, 2, 3, 4, 5]
            | Some x \<Rightarrow> get_multiple_predictions env0 () () () (Some x))
            = Inr [3/2, 5/2, 7/2, 9/2, 11/2]
        \<and> predict env0 clock0 ''eurusd'' ''h1'' req2 st9 = (Inr resp2, st2)"
    by (intro conjI)
  note E = N [THEN conjunct2, THEN conjunct2, THEN conjunct2, THEN mp, OF pre]
  from E have c: "calls st2 = calls st9 @ [Load_model (upper ''eurusd'') (lower ''h1''),
        Rollout None] @ (case sentimentScore req2 of None \<Rightarrow> [] | Some x \<Rightarrow> [Rollout (Some x)])"
    by (rule conjunct1)
  from E [THEN conjunct2, THEN conjunct1]
  have rsp: "resp2 = \<lparr>LSTM_predictions = map (\<lambda>r. (pred_value r, date r))
                 (get_all_predictions (store st2) (id' eurusd_row) (id' h1_row) (id' lstm_row)),
               LSTM_sentiment_predictions = map (\<lambda>r. (pred_value r, date r))
                 (get_all_predictions (store st2) (id' eurusd_row) (id' h1_row)
                    (id' sentiment_row))\<rparr>" .
  from E [THEN conjunct2, THEN conjunct2, THEN conjunct2, THEN mp, OF conjI,
      OF ex_distinct ex_ids]
  have r: "\<forall>i<num_of_predictions.
         rows_at (store st2) (id' eurusd_row) (id' h1_row) (id' lstm_row)
             (target clock0 (lower ''h1'') i)
           = upserted_rows (store st9) (id' eurusd_row) (id' h1_row) (id' lstm_row)
               ([1, 2, 3, 4, 5] ! i) (Close (last (data req2)))
               (target clock0 (lower ''h1'') i)
       \<and> rows_at (store st2) (id' eurusd_row) (id' h1_row) (id' sentiment_row)
             (target clock0 (lower ''h1'') i)
           = upserted_rows (store st9) (id' eurusd_row) (id' h1_row) (id' sentiment_row)
               ([3/2, 5/2, 7/2, 9/2, 11/2] ! i) (Close (last (data req2)))
               (target clock0 (lower ''h1'') i)" .
  have n0: "0 < num_of_predictions" and n4: "4 < num_of_predictions"
    by (simp_all add: num_of_predictions_def)
  note r0 = r [rule_format, OF n0] and r4 = r [rule_format, OF n4]
  from ex_not_fresh ex_fresh served quiet ex_run ex_distinct ex_ids c rsp r0 r4 show ?thesis
    by blast
qed

lemma m5_first_run:
  "predict env0 clock0 ''eurusd'' ''m5'' req0 st0
     = (Inr \<lparr>LSTM_predictions = [(5, now0)], LSTM_sentiment_predictions = [(5, now0)]\<rparr>, st_m5)"
  by code_simp

text \<open>
  C8, as amended. For period \<^verbatim>\<open>d1\<close> or \<^verbatim>\<open>h1\<close>, when the clock readings of the loop
  fall in one period bucket and the two models have distinct ids, a recompute that returns
  a response has stored 5 predictions per model variant: the 5 target timestamps are
  strictly increasing (target \<open>i\<close> lies \<open>i\<close> periods after target 0), the predictions
  stored at target \<open>i\<close> are the upsert of the \<open>i\<close>-th value of the variant's rollout, and
  the predictions stored at every other key are left as they were.
\<close>

theorem recompute_stores_five_per_variant:
  assumes "get_currency_pair (store st) (upper cp) = Some c"
    and "get_period (store st) (lower p) = Some pr"
    and "get_prediction_model (store st) ''LSTM'' = Some m"
    and "data req \<noteq> []"
    and "\<not> cache_fresh (store st) (id' c) (id' pr) (id' m)
           (match_date_to_period (clk 0) (lower p) 0) (Close (last (data req)))"
    and "get_prediction_model (store st) ''LSTM_Sentiment'' = Some s"
    and "load_model_and_scaler env (upper cp) (lower p) = Inr (model, scaler)"
    and "build_sequences env (data req) scaler = Inr seqs"
    and "get_multiple_predictions env seqs model scaler None = Inr preds"
    and "(case sentimentScore req of None \<Rightarrow> Inr preds
        | Some x \<Rightarrow> get_multiple_predictions env seqs model scaler (Some x)) = Inr pws"
    and "predict env clk cp p req st = (Inr resp, st')"
    and "lower p = ''d1'' \<or> lower p = ''h1''"
    and "\<forall>j<num_of_predictions.
           micros (match_date_to_period (clk (Suc j)) (lower p) 0)
             = micros (match_date_to_period (clk 1) (lower p) 0)"
    and "id' m \<noteq> id' s"
  shows "0 < period_us (lower p)
    \<and> (\<forall>i<num_of_predictions.
          i < length preds \<and> i < length pws
        \<and> micros (target clk (lower p) i)
            = micros (target clk (lower p) 0) + int i * period_us (lower p)
        \<and> rows_at (store st') (id' c) (id' pr) (id' m) (target clk (lower p) i)
            = upserted_rows (store st) (id' c) (id' pr) (id' m) (preds ! i)
                (Close (last (data req))) (target clk (lower p) i)
        \<and> rows_at (store st') (id' c) (id' pr) (id' s) (target clk (lower p) i)
            = upserted_rows (store st) (id' c) (id' pr) (id' s) (pws ! i)
                (Close (last (data req))) (target clk (lower p) i))
    \<and> (\<forall>c' p' m' d.
          \<not> (c' = id' c \<and> p' = id' pr \<and> (m' = id' m \<or> m' = id' s))
          \<or> (\<forall>i<num_of_predictions. micros (target clk (lower p) i) \<noteq> micros d)
          \<longrightarrow> rows_at (store st') c' p' m' d = rows_at (store st) c' p' m' d)"
proof -
  have w: "0 < period_us (lower p)"
    using assms(12) by (auto simp add: period_us_def day_us_def hour_us_def)
  have run: "store_predictions clk (lower p) (id' c) (id' pr) (id' m) (Some s) preds pws
        (Close (last (data req))) [0..<num_of_predictions] (store st) = (Inr (), store st')"
    using assms(1-11)
    by (rule predict_recompute_effect(2) [where clk = clk and env = env and cp = cp])
  have dist: "distinct (map (\<lambda>k. micros (target clk (lower p) k)) [0..<num_of_predictions])"
    using assms(13) w by (rule targets_distinct)
  have ante: "distinct (map (\<lambda>k. micros (target clk (lower p) k)) [0..<num_of_predictions])
      \<and> id' m \<noteq> id' s"
    using dist assms(14) by (rule conjI)
  have both: "(\<forall>i<num_of_predictions. i < length preds \<and> i < length pws
          \<and> anchored (store st') (id' c) (id' pr) (id' m) (target clk (lower p) i)
              (Close (last (data req)))
          \<and> anchored (store st') (id' c) (id' pr) (id' s) (target clk (lower p) i)
              (Close (last (data req))))
    \<and> (distinct (map (\<lambda>k. micros (target clk (lower p) k)) [0..<num_of_predictions])
          \<and> id' m \<noteq> id' s \<longrightarrow>
        (\<forall>i<num_of_predictions.
           rows_at (store st') (id' c) (id' pr) (id' m) (target clk (lower p) i)
             = upserted_rows (store st) (id' c) (id' pr) (id' m) (preds ! i)
                 (Close (last (data req))) (target clk (lower p) i)
         \<and> rows_at (store st') (id' c) (id' pr) (id' s) (target clk (lower p) i)
             = upserted_rows (store st) (id' c) (id' pr) (id' s) (pws ! i)
                 (Close (last (data req))) (target clk (lower p) i)))"
    using run by (rule recompute_effect_rows)
  from both have bnd: "\<forall>i<num_of_predictions. i < length preds \<and> i < length pws
          \<and> anchored (store st') (id' c) (id' pr) (id' m) (target clk (lower p) i)
              (Close (last (data req)))
          \<and> anchored (store st') (id' c) (id' pr) (id' s) (target clk (lower p) i)
              (Close (last (data req)))"
    by (rule conjunct1)
  from both [THEN conjunct2] ante
  have rows: "\<forall>i<num_of_predictions.
           rows_at (store st') (id' c) (id' pr) (id' m) (target clk (lower p) i)
             = upserted_rows (store st) (id' c) (id' pr) (id' m) (preds ! i)
                 (Close (last (data req))) (target clk (lower p) i)
         \<and> rows_at (store st') (id' c) (id' pr) (id' s) (target clk (lower p) i)
             = upserted_rows (store st) (id' c) (id' pr) (id' s) (pws ! i)
                 (Close (last (data req))) (target clk (lower p) i)"
    by (rule mp)
  have t: "micros (target clk (lower p) i)
            = micros (target clk (lower p) 0) + int i * period_us (lower p)"
    if "i < num_of_predictions" for i
  proof -
    have i: "micros (target clk (lower p) i)
        = micros (match_date_to_period (clk 1) (lower p) 0) + int i * period_us (lower p)"
    proof (rule targets_in_bucket)
      from assms(13) that
      show "micros (match_date_to_period (clk (Suc i)) (lower p) 0)
          = micros (match_date_to_period (clk 1) (lower p) 0)"
        by blast
    qed
    have "micros (target clk (lower p) 0)
        = micros (match_date_to_period (clk 1) (lower p) 0) + int 0 * period_us (lower p)"
      by (rule targets_in_bucket) simp
    with i show ?thesis by simp
  qed
  have frame: "rows_at (store st') c' p' m' d = rows_at (store st) c' p' m' d"
    if "\<not> (c' = id' c \<and> p' = id' pr \<and> (m' = id' m \<or> m' = id' s))
          \<or> (\<forall>i<num_of_predictions. micros (target clk (lower p) i) \<noteq> micros d)"
    for c' p' m' d
    using that
  proof
    assume "\<not> (c' = id' c \<and> p' = id' pr \<and> (m' = id' m \<or> m' = id' s))"
    with run show ?thesis by (rule store_predictions_frame_triple)
  next
    assume "\<forall>i<num_of_predictions. micros (target clk (lower p) i) \<noteq> micros d"
    then have "\<forall>k\<in>set [0..<num_of_predictions]. micros (target clk (lower p) k) \<noteq> micros d"
      by simp
    with run show ?thesis by (rule store_predictions_frame)
  qed
  show ?thesis
  proof (intro conjI allI impI)
    show "0 < period_us (lower p)" by (rule w)
  next
    fix i assume "i < num_of_predictions"
    with bnd show "i < length preds" by simp
  next
    fix i assume "i < num_of_predictions"
    with bnd show "i < length pws" by simp
  next
    fix i assume "i < num_of_predictions"
    then show "micros (target clk (lower p) i)
            = micros (target clk (lower p) 0) + int i * period_us (lower p)"
      by (rule t)
  next
    fix i assume "i < num_of_predictions"
    with rows show "rows_at (store st') (id' c) (id' pr) (id' m) (target clk (lower p) i)
            = upserted_rows (store st) (id' c) (id' pr) (id' m) (preds ! i)
                (Close (last (data req))) (target clk (lower p) i)"
      by simp
  next
    fix i assume "i < num_of_predictions"
    with rows show "rows_at (store st') (id' c) (id' pr) (id' s) (target clk (lower p) i)
            = upserted_rows (store st) (id' c) (id' pr) (id' s) (pws ! i)
                (Close (last (data req))) (target clk (lower p) i)"
      by simp
  next
    fix c' p' m' d
    assume "\<not> (c' = id' c \<and> p' = id' pr \<and> (m' = id' m \<or> m' = id' s))
          \<or> (\<forall>i<num_of_predictions. micros (target clk (lower p) i) \<noteq> micros d)"
    then show "rows_at (store st') c' p' m' d = rows_at (store st) c' p' m' d"
      by (rule frame)
  qed
qed

lemma ex_bucket:
  "\<forall>j<num_of_predictions.
      micros (match_date_to_period (clock0 (Suc j)) (lower ''h1'') 0)
        = micros (match_date_to_period (clock0 1) (lower ''h1'') 0)"
  by (simp add: clock0_def)

theorem recompute_stores_five_per_variant_witness:
  "lower ''h1'' = ''h1''
   \<and> id' lstm_row \<noteq> id' sentiment_row
   \<and> predict env0 clock0 ''eurusd'' ''h1'' req2 st9 = (Inr resp2, st2)
   \<and> 0 < period_us (lower ''h1'')
   \<and> micros (target clock0 (lower ''h1'') 4)
       = micros (target clock0 (lower ''h1'') 0) + int 4 * period_us (lower ''h1'')
   \<and> rows_at (store st2) (id' eurusd_row) (id' h1_row) (id' lstm_row)
         (target clock0 (lower ''h1'') 4)
       = upserted_rows (store st9) (id' eurusd_row) (id' h1_row) (id' lstm_row)
           ([1, 2, 3, 4, 5] ! 4) (Close (last (data req2))) (target clock0 (lower ''h1'') 4)
   \<and> rows_at (store st2) (id' eurusd_row) (id' h1_row) (id' sentiment_row)
         (target clock0 (lower ''h1'') 4)
       = upserted_rows (store st9) (id' eurusd_row) (id' h1_row) (id' sentiment_row)
           ([3/2, 5/2, 7/2, 9/2, 11/2] ! 4) (Close (last (data req2)))
           (target clock0 (lower ''h1'') 4)
   \<and> rows_at (store st2) 2 (id' h1_row) (id' lstm_row) now0
       = rows_at (store st9) 2 (id' h1_row) (id' lstm_row) now0"
proof -
  have per: "lower ''h1'' = ''d1'' \<or> lower ''h1'' = ''h1''"
    by (simp add: ex_lower)
  note T = recompute_stores_five_per_variant [where clk = clock0 and env = env0,
      OF ex_pair ex_period ex_model ex_data ex_not_fresh ex_sentiment ex_load ex_build
        ex_rollout ex_rollout_sentiment ex_run per ex_bucket ex_ids]
  have n4: "4 < num_of_predictions"
    by (simp add: num_of_predictions_def)
  note w = T [THEN conjunct1]
  note i4 = T [THEN conjunct2, THEN conjunct1, rule_format, OF n4]
  have other: "\<not> (2 = id' eurusd_row \<and> id' h1_row = id' h1_row
      \<and> (id' lstm_row = id' lstm_row \<or> id' lstm_row = id' sentiment_row))
      \<or> (\<forall>i<num_of_predictions. micros (target clock0 (lower ''h1'') i) \<noteq> micros now0)"
    by (simp add: eurusd_row_def)
  note fr = T [THEN conjunct2, THEN conjunct2, rule_format, OF other]
  from ex_lower ex_ids ex_run w i4 fr show ?thesis
    by blast
qed

text \<open>
  C8, as stated, fails for a period that storage knows and \<^verbatim>\<open>match_date_to_period\<close>
  does not align (it returns the clock reading for every offset): with period \<^verbatim>\<open>m5\<close>
  and a clock that stands still, the 5 targets coincide and the recompute leaves one stored
  prediction per model variant, carrying the last rollout value.
\<close>

theorem five_targets_counterexample:
  "get_period (store st0) (lower ''m5'') = Some \<lparr>id' = 3, name = ''m5''\<rparr>
   \<and> predict env0 clock0 ''eurusd'' ''m5'' req0 st0
       = (Inr \<lparr>LSTM_predictions = [(5, now0)], LSTM_sentiment_predictions = [(5, now0)]\<rparr>,
          st_m5)
   \<and> get_all_predictions (store st_m5) 1 3 1
       = [\<lparr>currency_pair_id = 1, period_id = 3, model_id = 1, pred_value = 5,
            last_live_value = 3/2, date = now0\<rparr>]
   \<and> map (target clock0 (lower ''m5'')) [0, 1, 2, 3, 4] = [now0, now0, now0, now0, now0]"
proof -
  have a: "get_period (store st0) (lower ''m5'') = Some \<lparr>id' = 3, name = ''m5''\<rparr>"
    by code_simp
  have b: "get_all_predictions (store st_m5) 1 3 1
       = [\<lparr>currency_pair_id = 1, period_id = 3, model_id = 1, pred_value = 5,
            last_live_value = 3/2, date = now0\<rparr>]"
    by code_simp
  have c: "map (target clock0 (lower ''m5'')) [0, 1, 2, 3, 4] = [now0, now0, now0, now0, now0]"
    by code_simp
  from a b c m5_first_run show ?thesis
    by blast
qed

lemma valued_upsert_same:
  assumes "micros d' = micros d"
  shows "valued (upsert_prediction db c p m v a d) c p m d' v"
  unfolding valued_def rows_upsert_same [OF assms]
  by (simp add: list_all_iff overwrite_def)

lemma agree_step_same:
  assumes "micros d' = micros d"
  shows "agree (upsert_prediction (upsert_prediction db c p m v a d) c p sm v a d) c p m sm d'"
proof -
  let ?db1 = "upsert_prediction db c p m v a d"
  have s: "valued (upsert_prediction ?db1 c p sm v a d) c p sm d' v"
    using assms by (rule valued_upsert_same)
  have "valued (upsert_prediction ?db1 c p sm v a d) c p m d' v"
  proof (cases "m = sm")
    case True
    with s show ?thesis by simp
  next
    case False
    then have "rows_at (upsert_prediction ?db1 c p sm v a d) c p m d' = rows_at ?db1 c p m d'"
      by (simp add: rows_upsert_other)
    with valued_upsert_same [OF assms, of db c p m v a] show ?thesis
      by (simp add: valued_def)
  qed
  with s show ?thesis
    unfolding agree_def by blast
qed

lemma agree_step_preserve:
  assumes "agree db c p m sm d'"
  shows "agree (upsert_prediction (upsert_prediction db c p m v a d) c p sm v a d) c p m sm d'"
proof (cases "micros d' = micros d")
  case True
  then show ?thesis by (rule agree_step_same)
next
  case False
  then have "rows_at (upsert_prediction (upsert_prediction db c p m v a d) c p sm v a d) c p mm d'
      = rows_at db c p mm d'" for mm
    by (simp add: rows_upsert_other)
  with assms show ?thesis
    by (simp add: agree_def valued_def)
qed

lemma store_predictions_agree:
  assumes "store_predictions clk period c p m (Some s) preds preds a js db = (Inr u, db')"
  shows "(\<forall>i\<in>set js. agree db' c p m (id' s) (target clk period i))
     \<and> (\<forall>d. agree db c p m (id' s) d \<longrightarrow> agree db' c p m (id' s) d)"
  using assms
proof (induction js arbitrary: db)
  case Nil
  then show ?case by simp
next
  case (Cons j rest)
  let ?db2 = "upsert_prediction
     (upsert_prediction db c p m (preds ! j) a (target clk period j))
     c p (id' s) (preds ! j) a (target clk period j)"
  from store_predictions_Cons [OF Cons.prems]
  have run: "store_predictions clk period c p m (Some s) preds preds a rest ?db2 = (Inr u, db')"
    by simp
  from Cons.IH [OF run]
  have rest: "\<forall>i\<in>set rest. agree db' c p m (id' s) (target clk period i)"
    and pres: "\<And>e. agree ?db2 c p m (id' s) e \<Longrightarrow> agree db' c p m (id' s) e"
    by blast+
  have j: "agree db' c p m (id' s) (target clk period j)"
    by (rule pres, rule agree_step_same) simp
  have keep: "agree db' c p m (id' s) d" if "agree db c p m (id' s) d" for d
    by (rule pres, rule agree_step_preserve) (rule that)
  show ?case
    using rest j keep by simp
qed

text \<open>
  C9, as amended. When no sentiment score is supplied and \<^verbatim>\<open>predict\<close> recomputes and
  returns a response, exactly one rollout has run (the log grows by the supplier call and
  the plain rollout only), and at each of the 5 target timestamps predictions are stored
  for both models and all carry one and the same value: the sentiment entries are written
  from the plain predictions. With pairwise distinct targets and distinct model ids the
  predictions stored at target \<open>i\<close> are, for both models, the upsert of the \<open>i\<close>-th
  plain value. The response is the series of all stored predictions of each model.
\<close>

theorem no_sentiment_copies_plain:
  assumes "get_currency_pair (store st) (upper cp) = Some c"
    and "get_period (store st) (lower p) = Some pr"
    and "get_prediction_model (store st) ''LSTM'' = Some m"
    and "data req \<noteq> []"
    and "\<not> cache_fresh (store st) (id' c) (id' pr) (id' m)
           (match_date_to_period (clk 0) (lower p) 0) (Close (last (data req)))"
    and "get_prediction_model (store st) ''LSTM_Sentiment'' = Some s"
    and "load_model_and_scaler env (upper cp) (lower p) = Inr (model, scaler)"
    and "build_sequences env (data req) scaler = Inr seqs"
    and "get_multiple_predictions env seqs model scaler None = Inr preds"
    and "sentimentScore req = None"
    and "predict env clk cp p req st = (Inr resp, st')"
  shows "calls st' = calls st @ [Load_model (upper cp) (lower p), Rollout None]
    \<and> resp = \<lparr>LSTM_predictions = map (\<lambda>r. (pred_value r, date r))
                  (get_all_predictions (store st') (id' c) (id' pr) (id' m)),
                LSTM_sentiment_predictions = map (\<lambda>r. (pred_value r, date r))
                  (get_all_predictions (store st') (id' c) (id' pr) (id' s))\<rparr>
    \<and> (\<forall>i<num_of_predictions.
          agree (store st') (id' c) (id' pr) (id' m) (id' s) (target clk (lower p) i))
    \<and> (distinct (map (\<lambda>k. micros (target clk (lower p) k)) [0..<num_of_predictions])
          \<and> id' m \<noteq> id' s \<longrightarrow>
        (\<forall>i<num_of_predictions.
           rows_at (store st') (id' c) (id' pr) (id' m) (target clk (lower p) i)
             = upserted_rows (store st) (id' c) (id' pr) (id' m) (preds ! i)
                 (Close (last (data req))) (target clk (lower p) i)
         \<and> rows_at (store st') (id' c) (id' pr) (id' s) (target clk (lower p) i)
             = upserted_rows (store st) (id' c) (id' pr) (id' s) (preds ! i)
                 (Close (last (data req))) (target clk (lower p) i)))"
proof -
  have h: "(case sentimentScore req of None \<Rightarrow> Inr preds
        | Some x \<Rightarrow> get_multiple_predictions env seqs model scaler (Some x)) = Inr preds"
    by (simp add: assms(10))
  have c: "calls st' = calls st @ [Load_model (upper cp) (lower p), Rollout None] @
        (case sentimentScore req of None \<Rightarrow> [] | Some x \<Rightarrow> [Rollout (Some x)])"
    using assms(1-9) h assms(11)
    by (rule predict_recompute_effect(1) [where clk = clk and env = env and cp = cp])
  have run: "store_predictions clk (lower p) (id' c) (id' pr) (id' m) (Some s) preds preds
        (Close (last (data req))) [0..<num_of_predictions] (store st) = (Inr (), store st')"
    using assms(1-9) h assms(11)
    by (rule predict_recompute_effect(2) [where clk = clk and env = env and cp = cp])
  have rsp: "resp = \<lparr>LSTM_predictions = map (\<lambda>r. (pred_value r, date r))
                  (get_all_predictions (store st') (id' c) (id' pr) (id' m)),
                LSTM_sentiment_predictions = map (\<lambda>r. (pred_value r, date r))
                  (get_all_predictions (store st') (id' c) (id' pr) (id' s))\<rparr>"
    using assms(1-9) h assms(11)
    by (rule predict_recompute_effect(3) [where clk = clk and env = env and cp = cp])
  from c have c': "calls st' = calls st @ [Load_model (upper cp) (lower p), Rollout None]"
    by (simp add: assms(10))
  from store_predictions_agree [OF run]
  have ag: "\<forall>i<num_of_predictions.
          agree (store st') (id' c) (id' pr) (id' m) (id' s) (target clk (lower p) i)"
    by simp
  have rows: "distinct (map (\<lambda>k. micros (target clk (lower p) k)) [0..<num_of_predictions])
          \<and> id' m \<noteq> id' s \<longrightarrow>
        (\<forall>i<num_of_predictions.
           rows_at (store st') (id' c) (id' pr) (id' m) (target clk (lower p) i)
             = upserted_rows (store st) (id' c) (id' pr) (id' m) (preds ! i)
                 (Close (last (data req))) (target clk (lower p) i)
         \<and> rows_at (store st') (id' c) (id' pr) (id' s) (target clk (lower p) i)
             = upserted_rows (store st) (id' c) (id' pr) (id' s) (preds ! i)
                 (Close (last (data req))) (target clk (lower p) i))"
    using recompute_effect_rows [OF run] by (rule conjunct2)
  from c' rsp ag rows show ?thesis
    by (intro conjI)
qed

lemma ex3_data: "data req3 \<noteq> []"
  by (simp add: req3_def)

lemma ex3_not_fresh:
  "\<not> cache_fresh (store st9) (id' eurusd_row) (id' h1_row) (id' lstm_row)
          (match_date_to_period (clock0 0) (lower ''h1'') 0) (Close (last (data req3)))"
  by code_simp

lemma ex3_build: "build_sequences env0 (data req3) () = Inr ()"
  by (simp add: env0_def)

lemma ex3_none: "sentimentScore req3 = None"
  by (simp add: req3_def)

lemma ex3_run: "predict env0 clock0 ''eurusd'' ''h1'' req3 st9 = (Inr resp3, st3)"
  unfolding resp3_def st3_def
  by (rule predict_succeeds [OF ex_pair ex_period ex_model ex3_data ex_sentiment ex_load,
        where seqs = "()" and preds = "[1, 2, 3, 4, 5]" and pws = "[1, 2, 3, 4, 5]"])
     (simp_all add: env0_def req3_def num_of_predictions_def)

theorem no_sentiment_copies_plain_witness:
  "sentimentScore req3 = None
   \<and> predict env0 clock0 ''eurusd'' ''h1'' req3 st9 = (Inr resp3, st3)
   \<and> distinct (map (\<lambda>k. micros (target clock0 (lower ''h1'') k)) [0..<num_of_predictions])
   \<and> id' lstm_row \<noteq> id' sentiment_row
   \<and> calls st3 = calls st9 @ [Load_model (upper ''eurusd'') (lower ''h1''), Rollout None]
   \<and> agree (store st3) (id' eurusd_row) (id' h1_row) (id' lstm_row) (id' sentiment_row)
        (target clock0 (lower ''h1'') 0)
   \<and> rows_at (store st3) (id' eurusd_row) (id' h1_row) (id' sentiment_row)
         (target clock0 (lower ''h1'') 0)
       = upserted_rows (store st9) (id' eurusd_row) (id' h1_row) (id' sentiment_row)
           ([1, 2, 3, 4, 5] ! 0) (Close (last (data req3))) (target clock0 (lower ''h1'') 0)"
proof -
  note T = no_sentiment_copies_plain [where clk = clock0 and env = env0,
      OF ex_pair ex_period ex_model ex3_data ex3_not_fresh ex_sentiment ex_load ex3_build
        ex_rollout ex3_none ex3_run]
  have n0: "0 < num_of_predictions"
    by (simp add: num_of_predictions_def)
  note c = T [THEN conjunct1]
  note a = T [THEN conjunct2, THEN conjunct2, THEN conjunct1, rule_format, OF n0]
  have ante: "distinct (map (\<lambda>k. micros (target clock0 (lower ''h1'') k))
      [0..<num_of_predictions]) \<and> id' lstm_row \<noteq> id' sentiment_row"
    using ex_distinct ex_ids by (rule conjI)
  note r = T [THEN conjunct2, THEN conjunct2, THEN conjunct2, THEN mp, OF ante,
      rule_format, OF n0, THEN conjunct2]
  from ex3_none ex3_run ex_distinct ex_ids c a r show ?thesis
    by (intro conjI)
qed

text \<open>
  C9, as stated, fails on the cached path: the stored state below is what a request with
  sentiment score 1/2 leaves; a following request with the same bars and no sentiment score
  is served from storage, and its sentiment series differs from its plain series.
\<close>

theorem sentiment_series_counterexample:
  "sentimentScore req0 = None
   \<and> predict env0 clock0 ''eurusd'' ''h1'' req0 st9 =
       (Inr \<lparr>LSTM_predictions =
               [(1, t0 10), (2, t0 11), (3, t0 12), (4, t0 13), (5, t0 14)],
             LSTM_sentiment_predictions =
               [(3/2, t0 10), (5/2, t0 11), (7/2, t0 12), (9/2, t0 13), (11/2, t0 14)]\<rparr>,
        st9)"
  by code_simp









end
